theory Spec2Isabelle
  imports Complex_Main "HOL-Library.Word"
begin

text \<open>
  A shallow embedding of the backend of the podcast transcriber: the iTunes
  search helpers of \<^verbatim>\<open>itunes_api.py\<close> and the download, split and transcription
  pipeline of \<^verbatim>\<open>main.py\<close>. Every function keeps its name and the order of its
  statements. Exceptions are values of a sum type, the file system and the trace
  of calls are passed along explicitly, and what the network, the encoder and the
  transcription service answer is a parameter of each function.
\<close>

section \<open>Python values shared by both modules\<close>

text \<open>\<^verbatim>\<open>str(n)\<close> of a natural number: its decimal digits.\<close>

definition digit_char :: "nat \<Rightarrow> char" where
  "digit_char d = ''0123456789'' ! d"

function str_nat :: "nat \<Rightarrow> string" where
  "str_nat n = (if n < 10 then [digit_char n] else str_nat (n div 10) @ [digit_char (n mod 10)])"
  by pat_completeness auto
termination
  by (relation "measure id") auto

declare str_nat.simps [simp del]

text \<open>
  Exceptions are values. Only the classes that the handlers of the two modules
  tell apart are kept; each carries the text that \<^verbatim>\<open>str(e)\<close> prints.
  \<^verbatim>\<open>requests.exceptions.RequestException\<close> is a subclass of \<^verbatim>\<open>IOError\<close>,
  which \<open>is_IOError\<close> records. Exceptions outside \<^verbatim>\<open>Exception\<close>
  (\<^verbatim>\<open>KeyboardInterrupt\<close>, task cancellation) are not modelled.
\<close>

datatype py_exn =
    HTTPException nat string
  | RequestException string
  | IOError string
  | SubprocessError string
  | ValueError string
  | ZeroDivisionError string
  | AttributeError string
  | PyException string

fun str_exn :: "py_exn \<Rightarrow> string" where
  "str_exn (HTTPException c d) = str_nat c @ '': '' @ d"
| "str_exn (RequestException m) = m"
| "str_exn (IOError m) = m"
| "str_exn (SubprocessError m) = m"
| "str_exn (ValueError m) = m"
| "str_exn (ZeroDivisionError m) = m"
| "str_exn (AttributeError m) = m"
| "str_exn (PyException m) = m"

fun is_IOError :: "py_exn \<Rightarrow> bool" where
  "is_IOError (RequestException m) = True"
| "is_IOError (IOError m) = True"
| "is_IOError e = False"

text \<open>
  JSON values as Python holds them after \<^verbatim>\<open>response.json()\<close>. A dict keeps
  its insertion order and has one entry per key, so it is an association list
  that \<open>dict_set\<close> updates in place. Numbers are integers here.
\<close>

datatype json =
    JNull
  | JBool bool
  | JInt int
  | JStr string
  | JList "json list"
  | JObj "(string \<times> json) list"

type_synonym dict = "(string \<times> json) list"

definition dict_has :: "dict \<Rightarrow> string \<Rightarrow> bool" where
  "dict_has d k = (map_of d k \<noteq> None)"

definition dict_get :: "dict \<Rightarrow> string \<Rightarrow> json \<Rightarrow> json" where
  "dict_get d k dflt = (case map_of d k of None \<Rightarrow> dflt | Some v \<Rightarrow> v)"

fun dict_set :: "dict \<Rightarrow> string \<Rightarrow> json \<Rightarrow> dict" where
  "dict_set [] k v = [(k, v)]"
| "dict_set ((k', v') # d) k v =
     (if k' = k then (k, v) # d else (k', v') # dict_set d k v)"

definition dict_update :: "dict \<Rightarrow> dict \<Rightarrow> dict" where
  "dict_update d e = foldl (\<lambda>acc kv. dict_set acc (fst kv) (snd kv)) d e"

fun type_name :: "json \<Rightarrow> string" where
  "type_name JNull = ''NoneType''"
| "type_name (JBool b) = ''bool''"
| "type_name (JInt i) = ''int''"
| "type_name (JStr s) = ''str''"
| "type_name (JList xs) = ''list''"
| "type_name (JObj d) = ''dict''"

section \<open>itunes\_api.py\<close>

subsection \<open>search\_itunes\<close>

text \<open>
  What \<^verbatim>\<open>requests.get\<close> gives: it raises, or it returns a response with a
  status code whose \<^verbatim>\<open>json()\<close> either raises or yields a value.
\<close>

datatype http_reply =
    GetRaised py_exn
  | Reply nat "py_exn + json"

type_synonym http_get = "string \<Rightarrow> dict \<Rightarrow> http_reply"

definition ITUNES_API_BASE_URL :: string where
  "ITUNES_API_BASE_URL = ''https://itunes.apple.com/search''"

definition ITUNES_LOOKUP_API_BASE_URL :: string where
  "ITUNES_LOOKUP_API_BASE_URL = ''https://itunes.apple.com/lookup''"

text \<open>
  \<^verbatim>\<open>response.raise_for_status()\<close>: an HTTPError, which is a RequestException,
  for the codes 400 to 599. Its message, which names the code, the reason and
  the URL, is cut down to a fixed text.
\<close>

definition raise_for_status :: "nat \<Rightarrow> py_exn + unit" where
  "raise_for_status code =
     (if 400 \<le> code \<and> code < 600
      then Inl (RequestException ''HTTP error'')
      else Inr ())"

text \<open>
  \<^verbatim>\<open>is_podcast_lookup\<close> and \<^verbatim>\<open>additional_params["collectionId"]\<close>
  together: the podcast id when the lookup API is used, \<open>None\<close> otherwise.
  A dict is falsy when it is empty, a string when it is empty.
\<close>

definition lookup_podcast_id :: "string option \<Rightarrow> dict option \<Rightarrow> json option" where
  "lookup_podcast_id entity additional_params =
     (if entity = Some ''podcastEpisode'' then
        (case additional_params of
           None \<Rightarrow> None
         | Some ap \<Rightarrow> if ap = [] then None else map_of ap ''collectionId'')
      else None)"

definition is_podcast_lookup :: "string option \<Rightarrow> dict option \<Rightarrow> bool" where
  "is_podcast_lookup entity additional_params =
     (lookup_podcast_id entity additional_params \<noteq> None)"

text \<open>The request the function sends: the URL and the query parameters.\<close>

definition itunes_request ::
  "string \<Rightarrow> string \<Rightarrow> string option \<Rightarrow> int \<Rightarrow> string \<Rightarrow> dict option \<Rightarrow> string \<times> dict" where
  "itunes_request query media entity limit country additional_params =
     (case lookup_podcast_id entity additional_params of
        Some podcast_id \<Rightarrow>
          (ITUNES_LOOKUP_API_BASE_URL,
           [(''id'', podcast_id),
            (''entity'', JStr ''podcastEpisode''),
            (''limit'', JInt limit),
            (''country'', JStr country)])
      | None \<Rightarrow>
          (let params = [(''term'', JStr query), (''media'', JStr media),
                         (''limit'', JInt limit), (''country'', JStr country)];
               params = (case entity of
                           None \<Rightarrow> params
                         | Some e \<Rightarrow> if e = [] then params else dict_set params ''entity'' (JStr e));
               params = (case additional_params of
                           None \<Rightarrow> params
                         | Some ap \<Rightarrow> if ap = [] then params else dict_update params ap)
           in (ITUNES_API_BASE_URL, params)))"

text \<open>
  The body of the \<^verbatim>\<open>try\<close>: the request, the status check, the parse, and
  \<^verbatim>\<open>data.get("resultCount", 0)\<close>, which raises AttributeError on a value
  that is not a dict.
\<close>

definition search_itunes_try ::
  "http_get \<Rightarrow> string \<Rightarrow> string \<Rightarrow> string option \<Rightarrow> int \<Rightarrow> string \<Rightarrow> dict option
     \<Rightarrow> py_exn + json" where
  "search_itunes_try get query media entity limit country additional_params =
     (let (url, params) = itunes_request query media entity limit country additional_params in
      case get url params of
        GetRaised e \<Rightarrow> Inl e
      | Reply code body \<Rightarrow>
          (case raise_for_status code of
             Inl e \<Rightarrow> Inl e
           | Inr _ \<Rightarrow>
               (case body of
                  Inl e \<Rightarrow> Inl e
                | Inr (JObj d) \<Rightarrow> Inr (JObj d)
                | Inr data \<Rightarrow>
                    Inl (AttributeError
                          ([CHR 0x27] @ type_name data @ [CHR 0x27] @
                           '' object has no attribute '' @ [CHR 0x27] @ ''get'' @ [CHR 0x27])))))"

definition error_dict :: "string \<Rightarrow> py_exn \<Rightarrow> json" where
  "error_dict label e =
     JObj [(''error'', JStr (label @ str_exn e)),
           (''resultCount'', JInt 0),
           (''results'', JList [])]"

text \<open>
  The three handlers, in the source's order. The result is a sum so that
  "it does not raise" is a statement and not a typing convention: \<open>Inl\<close>
  would be an exception leaving the function.
\<close>

definition search_itunes ::
  "http_get \<Rightarrow> string \<Rightarrow> string \<Rightarrow> string option \<Rightarrow> int \<Rightarrow> string \<Rightarrow> dict option
     \<Rightarrow> py_exn + json" where
  "search_itunes get query media entity limit country additional_params =
     (case search_itunes_try get query media entity limit country additional_params of
        Inr data \<Rightarrow> Inr data
      | Inl (RequestException m) \<Rightarrow>
          Inr (error_dict ''Request failed: '' (RequestException m))
      | Inl (ValueError m) \<Rightarrow>
          Inr (error_dict ''Failed to parse response: '' (ValueError m))
      | Inl e \<Rightarrow>
          Inr (error_dict ''Unexpected error: '' e))"

subsection \<open>format\_podcast\_results\<close>

text \<open>
  \<^verbatim>\<open>itunes_results.get("results", [])\<close> and what \<^verbatim>\<open>len\<close>, indexing and
  iteration make of it. A list of dicts is the typed case. An empty string or
  an empty dict has length 0 and no element to visit, so the result is the
  empty list; anything else that is not a list of dicts is taken to raise on
  the way (the code gets past a first entry that is a list or a string
  containing \<^verbatim>\<open>collectionId\<close> without \<^verbatim>\<open>kind\<close>, by skipping it).
\<close>

fun as_items :: "json list \<Rightarrow> dict list option" where
  "as_items [] = Some []"
| "as_items (JObj d # xs) = (case as_items xs of None \<Rightarrow> None | Some ds \<Rightarrow> Some (d # ds))"
| "as_items (x # xs) = None"

definition get_results :: "dict \<Rightarrow> py_exn + dict list" where
  "get_results itunes_results =
     (case dict_get itunes_results ''results'' (JList []) of
        JList xs \<Rightarrow>
          (case as_items xs of
             None \<Rightarrow> Inl (AttributeError ''object has no attribute get'')
           | Some items \<Rightarrow> Inr items)
      | JStr [] \<Rightarrow> Inr []
      | JObj [] \<Rightarrow> Inr []
      | _ \<Rightarrow> Inl (PyException ''results is not a list''))"

text \<open>The test of line 128 on the list of results.\<close>

definition is_lookup_header :: "dict list \<Rightarrow> bool" where
  "is_lookup_header results =
     (length results > 0 \<and> \<not> dict_has (results ! 0) ''kind''
        \<and> dict_has (results ! 0) ''collectionId'')"

definition skip_podcast_entry :: "dict list \<Rightarrow> dict list" where
  "skip_podcast_entry results = (if is_lookup_header results then drop 1 results else results)"

definition format_item :: "dict \<Rightarrow> dict" where
  "format_item item =
     (if dict_get item ''kind'' JNull = JStr ''podcast'' then
        [(''id'', dict_get item ''collectionId'' (JStr '''')),
         (''title'', dict_get item ''collectionName'' (JStr '''')),
         (''description'',
            dict_get item ''description'' (dict_get item ''collectionCensoredName'' (JStr ''''))),
         (''artwork_url'',
            dict_get item ''artworkUrl600'' (dict_get item ''artworkUrl100'' (JStr ''''))),
         (''artist'', dict_get item ''artistName'' (JStr '''')),
         (''feed_url'', dict_get item ''feedUrl'' (JStr '''')),
         (''genre'', dict_get item ''primaryGenreName'' (JStr '''')),
         (''release_date'', dict_get item ''releaseDate'' (JStr '''')),
         (''episode_count'', dict_get item ''trackCount'' (JInt 0)),
         (''country'', dict_get item ''country'' (JStr '''')),
         (''type'', JStr ''podcast'')]
      else if dict_get item ''kind'' JNull = JStr ''podcast-episode'' \<or>
              (dict_has item ''episodeUrl'' \<and> dict_has item ''collectionId''
                 \<and> dict_has item ''trackId'') then
        [(''id'', dict_get item ''trackId'' (JStr '''')),
         (''podcast_id'', dict_get item ''collectionId'' (JStr '''')),
         (''podcast_title'', dict_get item ''collectionName'' (JStr '''')),
         (''title'', dict_get item ''trackName'' (JStr '''')),
         (''description'', dict_get item ''description'' (JStr '''')),
         (''artwork_url'',
            dict_get item ''artworkUrl600'' (dict_get item ''artworkUrl100'' (JStr ''''))),
         (''audio_url'', dict_get item ''episodeUrl'' (dict_get item ''previewUrl'' (JStr ''''))),
         (''duration'', dict_get item ''trackTimeMillis'' (JInt 0)),
         (''release_date'', dict_get item ''releaseDate'' (JStr '''')),
         (''episode_number'', dict_get item ''episodeNumber'' (JStr '''')),
         (''season'', dict_get item ''seasonNumber'' (JStr '''')),
         (''type'', JStr ''episode'')]
      else
        [(''id'', dict_get item ''trackId'' (dict_get item ''collectionId'' (JStr ''''))),
         (''title'', dict_get item ''trackName'' (dict_get item ''collectionName'' (JStr ''''))),
         (''description'', dict_get item ''description'' (JStr '''')),
         (''artwork_url'', dict_get item ''artworkUrl100'' (JStr '''')),
         (''type'', JStr ''unknown'')])"

text \<open>The \<^verbatim>\<open>for\<close> loop: one formatted item appended per visited entry.\<close>

fun format_loop :: "dict list \<Rightarrow> dict list \<Rightarrow> dict list" where
  "format_loop formatted_results [] = formatted_results"
| "format_loop formatted_results (item # rest) =
     format_loop (formatted_results @ [format_item item]) rest"

definition format_podcast_results :: "dict \<Rightarrow> py_exn + dict list" where
  "format_podcast_results itunes_results =
     (case get_results itunes_results of
        Inl e \<Rightarrow> Inl e
      | Inr results \<Rightarrow> Inr (format_loop [] (skip_podcast_entry results)))"

section \<open>main.py\<close>

subsection \<open>Files, paths and the call trace\<close>

text \<open>
  The file system is a map from paths to nodes: a file with its bytes, or a
  directory. Paths are the strings the program uses; the namespace is flat, so
  that a parent directory is not looked for when a file is written. An
  operation fails only where the kind of node makes it fail (removing a
  directory as a file, writing over a directory, and so on): a deletion of an
  existing file or directory of the right kind succeeds.

  The \<open>events\<close> of a world are the calls the program has made to three of its
  collaborators, in order: \<^verbatim>\<open>tempfile.mkdtemp\<close> with the directory it created,
  the encoder with the start time and output file of an extraction, and
  \<open>transcribe_audio_chunk\<close> with its argument.
\<close>

type_synonym path = string
type_synonym bytes = "8 word list"

datatype node = File bytes | Dir

datatype event =
    Mkdtemp path
  | Extract int path
  | Transcribe path

record world =
  fs :: "path \<Rightarrow> node option"
  events :: "event list"

definition path_exists :: "world \<Rightarrow> path \<Rightarrow> bool" where
  "path_exists w p = (fs w p \<noteq> None)"

definition log_event :: "event \<Rightarrow> world \<Rightarrow> world" where
  "log_event ev w = w\<lparr>events := events w @ [ev]\<rparr>"

text \<open>The calls of one kind in a trace, in order.\<close>

fun mkdtemp_calls :: "event list \<Rightarrow> path list" where
  "mkdtemp_calls [] = []"
| "mkdtemp_calls (Mkdtemp d # es) = d # mkdtemp_calls es"
| "mkdtemp_calls (e # es) = mkdtemp_calls es"

fun extract_calls :: "event list \<Rightarrow> (int \<times> path) list" where
  "extract_calls [] = []"
| "extract_calls (Extract s p # es) = (s, p) # extract_calls es"
| "extract_calls (e # es) = extract_calls es"

fun transcribe_calls :: "event list \<Rightarrow> path list" where
  "transcribe_calls [] = []"
| "transcribe_calls (Transcribe p # es) = p # transcribe_calls es"
| "transcribe_calls (e # es) = transcribe_calls es"

text \<open>\<^verbatim>\<open>posixpath.join\<close> of two components.\<close>

definition os_path_join :: "path \<Rightarrow> string \<Rightarrow> path" where
  "os_path_join a b =
     (if b \<noteq> [] \<and> hd b = CHR ''/'' then b
      else if a = [] \<or> last a = CHR ''/'' then a @ b
      else a @ ''/'' @ b)"

text \<open>The paths that lie below a directory; \<^verbatim>\<open>shutil.rmtree\<close> removes them with it.\<close>

definition under_dir :: "path \<Rightarrow> path \<Rightarrow> bool" where
  "under_dir d p =
     (let d' = (if d \<noteq> [] \<and> last d = CHR ''/'' then d else d @ ''/'')
      in length d' < length p \<and> take (length d') p = d')"

text \<open>
  \<^verbatim>\<open>open(p, 'wb')\<close> followed by the writes, and \<^verbatim>\<open>os.makedirs(d, exist_ok=True)\<close>.
  The texts of the errors are stand-ins.
\<close>

definition write_file :: "world \<Rightarrow> path \<Rightarrow> bytes \<Rightarrow> py_exn + world" where
  "write_file w p data =
     (case fs w p of
        Some Dir \<Rightarrow> Inl (IOError ''Is a directory'')
      | _ \<Rightarrow> Inr (w\<lparr>fs := (fs w)(p \<mapsto> File data)\<rparr>))"

definition os_makedirs :: "world \<Rightarrow> path \<Rightarrow> py_exn + world" where
  "os_makedirs w d =
     (case fs w d of
        Some Dir \<Rightarrow> Inr w
      | Some (File b) \<Rightarrow> Inl (IOError ''File exists'')
      | None \<Rightarrow> Inr (w\<lparr>fs := (fs w)(d \<mapsto> Dir)\<rparr>))"

subsection \<open>Formatting\<close>

text \<open>\<^verbatim>\<open>f"chunk_{i:03d}.mp3"\<close>: the index in decimal, padded with zeros to three digits.\<close>

definition chunk_name :: "nat \<Rightarrow> string" where
  "chunk_name i =
     ''chunk_'' @ replicate (3 - length (str_nat i)) CHR ''0'' @ str_nat i @ ''.mp3''"

text \<open>\<^verbatim>\<open>os.path.join(output_dir, f"chunk_{i:03d}.mp3")\<close>, as both splitters compute it.\<close>

definition chunk_path :: "path \<Rightarrow> nat \<Rightarrow> path" where
  "chunk_path output_dir i = os_path_join output_dir (chunk_name i)"

text \<open>
  \<^verbatim>\<open>int(x)\<close> of a float truncates towards zero. Floats are exact reals here:
  the rounding of the divisions is not modelled.
\<close>

definition py_int :: "real \<Rightarrow> int" where
  "py_int x = (if 0 \<le> x then \<lfloor>x\<rfloor> else \<lceil>x\<rceil>)"

text \<open>\<^verbatim>\<open>str.lower\<close> on the ASCII letters, \<^verbatim>\<open>sub in s\<close>, and \<^verbatim>\<open>sep.join(xs)\<close>.\<close>

definition lower_char :: "char \<Rightarrow> char" where
  "lower_char c =
     (case map_of (zip ''ABCDEFGHIJKLMNOPQRSTUVWXYZ'' ''abcdefghijklmnopqrstuvwxyz'') c of
        Some l \<Rightarrow> l
      | None \<Rightarrow> c)"

fun str_contains :: "string \<Rightarrow> string \<Rightarrow> bool" where
  "str_contains sub [] = (sub = [])"
| "str_contains sub (c # cs) = (take (length sub) (c # cs) = sub \<or> str_contains sub cs)"

fun join_str :: "string \<Rightarrow> string list \<Rightarrow> string" where
  "join_str sep [] = []"
| "join_str sep [x] = x"
| "join_str sep (x # y # ys) = x @ sep @ join_str sep (y # ys)"

subsection \<open>The collaborators\<close>

text \<open>
  What the outside world answers. The download either raises or gives a status
  code, the bytes that \<^verbatim>\<open>iter_content\<close> delivers and, possibly, the exception
  that ends the stream after them. The duration probe raises or prints a
  duration. An extraction raises or exits with success, having written its
  output file or not. The legacy HTTP call raises or gives a status code, the
  body as text, and what \<^verbatim>\<open>json()\<close> makes of it: an exception, or the
  \<^verbatim>\<open>text\<close> entry of the dict if it has one.

  The environment of a request holds these answers, the API key, whether
  \<^verbatim>\<open>ffmpeg -version\<close> succeeds, the result of the new client's transcription call,
  the temporary directory with the names \<^verbatim>\<open>mkdtemp\<close> will try in turn, the
  size that \<^verbatim>\<open>stat\<close> reports for a directory, and the paths that the system
  refuses to delete (a file in use, a missing permission).
\<close>

datatype audio_reply =
    AudioGetRaised py_exn
  | AudioReply nat bytes "py_exn option"

datatype probe_result = ProbeRaised py_exn | ProbeDuration real

datatype extract_result = ExtractRaised py_exn | Extracted "bytes option"

datatype post_reply =
    PostRaised py_exn
  | PostReply nat string "py_exn + string option"

record env =
  OPENAI_API_KEY :: "string option"
  requests_get :: "string \<Rightarrow> audio_reply"
  ffmpeg_version :: bool
  ffmpeg_duration :: "path \<Rightarrow> probe_result"
  ffmpeg_extract :: "path \<Rightarrow> int \<Rightarrow> int \<Rightarrow> path \<Rightarrow> extract_result"
  client_transcribe :: "bytes \<Rightarrow> py_exn + string"
  requests_post :: "bytes \<Rightarrow> post_reply"
  gettempdir :: path
  candidate_names :: "string list"
  dir_st_size :: nat
  deletion_fails :: "path \<Rightarrow> bool"

definition os_path_getsize :: "env \<Rightarrow> world \<Rightarrow> path \<Rightarrow> py_exn + nat" where
  "os_path_getsize en w p =
     (case fs w p of
        Some (File b) \<Rightarrow> Inr (length b)
      | Some Dir \<Rightarrow> Inr (dir_st_size en)
      | None \<Rightarrow> Inl (IOError ''No such file or directory''))"

text \<open>
  \<^verbatim>\<open>os.remove\<close> and \<^verbatim>\<open>shutil.rmtree\<close>. Each raises when the node is missing or
  of the wrong kind, and when the system refuses the deletion; the file system
  is then as it was (a tree deleted in part is not modelled).
\<close>

definition os_remove :: "env \<Rightarrow> world \<Rightarrow> path \<Rightarrow> py_exn + world" where
  "os_remove en w p =
     (case fs w p of
        Some (File b) \<Rightarrow>
          if deletion_fails en p then Inl (IOError ''Permission denied'')
          else Inr (w\<lparr>fs := (fs w)(p := None)\<rparr>)
      | Some Dir \<Rightarrow> Inl (IOError ''Is a directory'')
      | None \<Rightarrow> Inl (IOError ''No such file or directory''))"

definition shutil_rmtree :: "env \<Rightarrow> world \<Rightarrow> path \<Rightarrow> py_exn + world" where
  "shutil_rmtree en w d =
     (case fs w d of
        Some Dir \<Rightarrow>
          if deletion_fails en d then Inl (IOError ''Permission denied'')
          else Inr (w\<lparr>fs := (\<lambda>p. if p = d \<or> under_dir d p then None else fs w p)\<rparr>)
      | Some (File b) \<Rightarrow> Inl (IOError ''Not a directory'')
      | None \<Rightarrow> Inl (IOError ''No such file or directory''))"

text \<open>
  \<^verbatim>\<open>tempfile.mkdtemp(prefix=pre)\<close>: the first candidate name under which
  nothing exists yet; an error when all are taken.
\<close>

fun mkdtemp_names :: "world \<Rightarrow> path \<Rightarrow> string \<Rightarrow> string list \<Rightarrow> py_exn + path \<times> world" where
  "mkdtemp_names w dir pre [] = Inl (IOError ''No usable temporary directory name found'')"
| "mkdtemp_names w dir pre (name # names) =
     (let file = os_path_join dir (pre @ name) in
      if path_exists w file then mkdtemp_names w dir pre names
      else Inr (file, log_event (Mkdtemp file) (w\<lparr>fs := (fs w)(file \<mapsto> Dir)\<rparr>)))"

definition tempfile_mkdtemp :: "env \<Rightarrow> world \<Rightarrow> string \<Rightarrow> py_exn + path \<times> world" where
  "tempfile_mkdtemp en w pre = mkdtemp_names w (gettempdir en) pre (candidate_names en)"

subsection \<open>split\_audio\_file\_python\<close>

text \<open>
  \<open>check_ffmpeg_installed\<close> catches \<^verbatim>\<open>SubprocessError\<close> and
  \<^verbatim>\<open>FileNotFoundError\<close> of its probe and returns a bool. Another \<^verbatim>\<open>OSError\<close>
  of the probe (an \<^verbatim>\<open>ffmpeg\<close> that may not be executed) escapes in the code;
  that case is not modelled.
\<close>

definition check_ffmpeg_installed :: "env \<Rightarrow> bool" where
  "check_ffmpeg_installed en = ffmpeg_version en"

text \<open>
  \<^verbatim>\<open>f.read(n)\<close> at a position of the input file, read from the file as it is at
  that moment, since the chunk files are written while the input is open (the
  read-ahead buffer of the reader, which matters only when the input is itself
  one of the chunk files, is not modelled). The
  loop of lines 197 to 210 follows, then the function; a chunk size of zero is
  the \<^verbatim>\<open>ZeroDivisionError\<close> of line 190, and with a negative one the loop has
  no iteration.
\<close>

definition read_at :: "world \<Rightarrow> path \<Rightarrow> nat \<Rightarrow> nat \<Rightarrow> bytes" where
  "read_at w p pos n = (case fs w p of Some (File b) \<Rightarrow> take n (drop pos b) | _ \<Rightarrow> [])"

fun split_python_loop ::
  "path \<Rightarrow> path \<Rightarrow> nat \<Rightarrow> nat list \<Rightarrow> nat \<Rightarrow> world \<Rightarrow> path list
     \<Rightarrow> (py_exn + path list) \<times> world" where
  "split_python_loop input_file output_dir chunk_size [] pos w chunk_files = (Inr chunk_files, w)"
| "split_python_loop input_file output_dir chunk_size (i # rest) pos w chunk_files =
     (let output_file = chunk_path output_dir i;
          data = read_at w input_file pos chunk_size
      in case write_file w output_file data of
           Inl e \<Rightarrow> (Inl e, w)
         | Inr w' \<Rightarrow>
             split_python_loop input_file output_dir chunk_size rest (pos + length data) w'
               (chunk_files @ [output_file]))"

definition split_audio_file_python ::
  "env \<Rightarrow> world \<Rightarrow> path \<Rightarrow> path \<Rightarrow> int \<Rightarrow> (py_exn + path list) \<times> world" where
  "split_audio_file_python en w input_file output_dir max_size_mb =
     (case os_makedirs w output_dir of
        Inl e \<Rightarrow> (Inl e, w)
      | Inr w1 \<Rightarrow>
     (case os_path_getsize en w1 input_file of
        Inl e \<Rightarrow> (Inl e, w1)
      | Inr file_size \<Rightarrow>
     (let chunk_size = py_int (real_of_int max_size_mb * 0.95 * 1024 * 1024) in
      if chunk_size = 0 then (Inl (ZeroDivisionError ''float division by zero''), w1)
      else
     (let num_chunks = \<lceil>real file_size / real_of_int chunk_size\<rceil> in
      case fs w1 input_file of
        Some (File b) \<Rightarrow>
          split_python_loop input_file output_dir (nat chunk_size) [0..<nat num_chunks] 0 w1 []
      | _ \<Rightarrow> (Inl (IOError ''Is a directory''), w1)))))"

subsection \<open>split\_audio\_file\<close>

text \<open>
  Lines 244 to 254: the probed duration, or the estimate from the file size when
  the probe raises \<^verbatim>\<open>SubprocessError\<close>. Any other exception of the probe (a
  \<^verbatim>\<open>ValueError\<close> of \<^verbatim>\<open>float\<close>) is not caught there.
\<close>

definition probe_duration :: "env \<Rightarrow> world \<Rightarrow> path \<Rightarrow> int \<Rightarrow> int \<Rightarrow> py_exn + real" where
  "probe_duration en w input_file chunk_duration_seconds max_size_mb =
     (case ffmpeg_duration en input_file of
        ProbeDuration duration \<Rightarrow> Inr duration
      | ProbeRaised (SubprocessError m) \<Rightarrow>
          (case os_path_getsize en w input_file of
             Inl e \<Rightarrow> Inl e
           | Inr file_size \<Rightarrow>
               if max_size_mb = 0 then Inl (ZeroDivisionError ''float division by zero'')
               else
                 (let file_size_mb = real file_size / (1024 * 1024);
                      num_chunks = max 1 (py_int (file_size_mb / real_of_int max_size_mb) + 1)
                  in Inr (real_of_int (num_chunks * chunk_duration_seconds))))
      | ProbeRaised e \<Rightarrow> Inl e)"

text \<open>\<^verbatim>\<open>os.path.exists(p) and os.path.getsize(p) > 0\<close>, the test of line 282.\<close>

definition has_content :: "env \<Rightarrow> world \<Rightarrow> path \<Rightarrow> bool" where
  "has_content en w p =
     (path_exists w p \<and> (case os_path_getsize en w p of Inr n \<Rightarrow> 0 < n | Inl e \<Rightarrow> False))"

text \<open>
  Lines 263 to 292, one iteration per chunk index. An extraction that exits
  with success may or may not have written its output file.
\<close>

fun split_ffmpeg_loop ::
  "env \<Rightarrow> path \<Rightarrow> path \<Rightarrow> int \<Rightarrow> int \<Rightarrow> nat list \<Rightarrow> world \<Rightarrow> path list
     \<Rightarrow> (py_exn + path list) \<times> world" where
  "split_ffmpeg_loop en input_file output_dir chunk_duration_seconds num_chunks [] w chunk_files =
     (Inr chunk_files, w)"
| "split_ffmpeg_loop en input_file output_dir chunk_duration_seconds num_chunks (i # rest) w
       chunk_files =
     (let start_time = int i * chunk_duration_seconds;
          output_file = chunk_path output_dir i;
          w1 = log_event (Extract start_time output_file) w
      in case ffmpeg_extract en input_file start_time chunk_duration_seconds output_file of
           ExtractRaised (SubprocessError m) \<Rightarrow>
             if int i < num_chunks - 1
             then (Inl (PyException (''Failed to split audio file: '' @ m)), w1)
             else split_ffmpeg_loop en input_file output_dir chunk_duration_seconds num_chunks
                    rest w1 chunk_files
         | ExtractRaised e \<Rightarrow> (Inl e, w1)
         | Extracted written \<Rightarrow>
             (let w2 = (case written of
                          None \<Rightarrow> w1
                        | Some data \<Rightarrow> w1\<lparr>fs := (fs w1)(output_file \<mapsto> File data)\<rparr>)
              in if has_content en w2 output_file
                 then split_ffmpeg_loop en input_file output_dir chunk_duration_seconds num_chunks
                        rest w2 (chunk_files @ [output_file])
                 else split_ffmpeg_loop en input_file output_dir chunk_duration_seconds num_chunks
                        rest w2 chunk_files))"

definition split_audio_file ::
  "env \<Rightarrow> world \<Rightarrow> path \<Rightarrow> path \<Rightarrow> int \<Rightarrow> int \<Rightarrow> (py_exn + path list) \<times> world" where
  "split_audio_file en w input_file output_dir chunk_duration_seconds max_size_mb =
     (if \<not> check_ffmpeg_installed en
      then split_audio_file_python en w input_file output_dir max_size_mb
      else
     (case os_makedirs w output_dir of
        Inl e \<Rightarrow> (Inl e, w)
      | Inr w1 \<Rightarrow>
     (case probe_duration en w1 input_file chunk_duration_seconds max_size_mb of
        Inl e \<Rightarrow> (Inl e, w1)
      | Inr duration \<Rightarrow>
          if chunk_duration_seconds = 0
          then (Inl (ZeroDivisionError ''float division by zero''), w1)
          else
            (let num_chunks =
                   max 1 (py_int (duration / real_of_int chunk_duration_seconds) + 1)
             in split_ffmpeg_loop en input_file output_dir chunk_duration_seconds num_chunks
                  [0..<nat num_chunks] w1 []))))"

subsection \<open>transcribe\_audio\_chunk\<close>

text \<open>
  The legacy path: read the file, post it, and read \<^verbatim>\<open>text\<close> from a reply
  with status 200. The reply's JSON is taken to be a dict whose \<^verbatim>\<open>text\<close>,
  when present, is a string.
\<close>

definition legacy_api :: "env \<Rightarrow> world \<Rightarrow> path \<Rightarrow> py_exn + string" where
  "legacy_api en w chunk_file =
     (case fs w chunk_file of
        Some (File audio_file_data) \<Rightarrow>
          (case requests_post en audio_file_data of
             PostRaised e \<Rightarrow> Inl e
           | PostReply status_code body_text result \<Rightarrow>
               if status_code = 200 then
                 (case result of
                    Inl e \<Rightarrow> Inl e
                  | Inr None \<Rightarrow> Inr []
                  | Inr (Some t) \<Rightarrow> Inr t)
               else Inl (PyException
                          (''API call failed: '' @ str_nat status_code @ '' - '' @ body_text)))
      | Some Dir \<Rightarrow> Inl (IOError ''Is a directory'')
      | None \<Rightarrow> Inl (IOError ''No such file or directory''))"

definition new_api :: "env \<Rightarrow> world \<Rightarrow> path \<Rightarrow> py_exn + string" where
  "new_api en w chunk_file =
     (case fs w chunk_file of
        Some (File audio_file) \<Rightarrow> client_transcribe en audio_file
      | Some Dir \<Rightarrow> Inl (IOError ''Is a directory'')
      | None \<Rightarrow> Inl (IOError ''No such file or directory''))"

definition transcribe_audio_chunk ::
  "env \<Rightarrow> world \<Rightarrow> path \<Rightarrow> (py_exn + string) \<times> world" where
  "transcribe_audio_chunk en w chunk_file =
     (let w1 = log_event (Transcribe chunk_file) w
      in case new_api en w chunk_file of
           Inr transcript_text \<Rightarrow> (Inr transcript_text, w1)
         | Inl e \<Rightarrow> (legacy_api en w chunk_file, w1))"

subsection \<open>transcribe\_podcast\<close>

definition temp_audio_path :: path where
  "temp_audio_path = ''temp_audio.mp3''"

text \<open>Lines 402 to 404: the file is created, then the streamed content written.\<close>

definition save_stream ::
  "world \<Rightarrow> path \<Rightarrow> bytes \<Rightarrow> py_exn option \<Rightarrow> (py_exn + unit) \<times> world" where
  "save_stream w p received failure =
     (case write_file w p received of
        Inl e \<Rightarrow> (Inl e, w)
      | Inr w1 \<Rightarrow> (case failure of None \<Rightarrow> (Inr (), w1) | Some e \<Rightarrow> (Inl e, w1)))"

text \<open>Lines 436 to 439.\<close>

fun transcribe_chunks ::
  "env \<Rightarrow> path list \<Rightarrow> world \<Rightarrow> string list \<Rightarrow> (py_exn + string list) \<times> world" where
  "transcribe_chunks en [] w transcripts = (Inr transcripts, w)"
| "transcribe_chunks en (chunk_file # rest) w transcripts =
     (case transcribe_audio_chunk en w chunk_file of
        (Inl e, w1) \<Rightarrow> (Inl e, w1)
      | (Inr chunk_transcript, w1) \<Rightarrow>
          transcribe_chunks en rest w1 (transcripts @ [chunk_transcript]))"

text \<open>The guarded deletions of the success paths (lines 446 to 453, 467 to 469).\<close>

definition remove_if_exists :: "env \<Rightarrow> world \<Rightarrow> path \<Rightarrow> py_exn + world" where
  "remove_if_exists en w p = (if path_exists w p then os_remove en w p else Inr w)"

definition rmtree_if_exists :: "env \<Rightarrow> world \<Rightarrow> path \<Rightarrow> py_exn + world" where
  "rmtree_if_exists en w d =
     (if d \<noteq> [] \<and> path_exists w d then shutil_rmtree en w d else Inr w)"

text \<open>Lines 422 to 455, the body of the \<^verbatim>\<open>try\<close> of the chunked branch.\<close>

definition chunked_try :: "env \<Rightarrow> world \<Rightarrow> path \<Rightarrow> (py_exn + string) \<times> world" where
  "chunked_try en w temp_dir =
     (case split_audio_file en w temp_audio_path temp_dir 300 20 of
        (Inl e, w1) \<Rightarrow> (Inl e, w1)
      | (Inr chunk_files, w1) \<Rightarrow>
          if chunk_files = []
          then (Inl (PyException ''Failed to split audio file into chunks''), w1)
          else
            (case transcribe_chunks en chunk_files w1 [] of
               (Inl e, w2) \<Rightarrow> (Inl e, w2)
             | (Inr transcripts, w2) \<Rightarrow>
                 (let full_transcript = join_str '' '' transcripts
                  in case remove_if_exists en w2 temp_audio_path of
                       Inl e \<Rightarrow> (Inl e, w2)
                     | Inr w3 \<Rightarrow>
                         (case rmtree_if_exists en w3 temp_dir of
                            Inl e \<Rightarrow> (Inl e, w3)
                          | Inr w4 \<Rightarrow> (Inr full_transcript, w4)))))"

text \<open>Lines 421 to 459: every exception of that body is wrapped in a plain one.\<close>

definition chunked :: "env \<Rightarrow> world \<Rightarrow> path \<Rightarrow> (py_exn + string) \<times> world" where
  "chunked en w temp_dir =
     (case chunked_try en w temp_dir of
        (Inl e, w1) \<Rightarrow> (Inl (PyException (''Error processing audio chunks: '' @ str_exn e)), w1)
      | (Inr transcript, w1) \<Rightarrow> (Inr transcript, w1))"

text \<open>
  Lines 402 to 471, the body of the inner \<^verbatim>\<open>try\<close>. The third component
  is the variable \<^verbatim>\<open>temp_dir\<close> as the handlers find it.
\<close>

definition save_and_transcribe ::
  "env \<Rightarrow> world \<Rightarrow> bytes \<Rightarrow> py_exn option \<Rightarrow> (py_exn + string) \<times> world \<times> path option" where
  "save_and_transcribe en w received failure =
     (case save_stream w temp_audio_path received failure of
        (Inl e, w1) \<Rightarrow> (Inl e, w1, None)
      | (Inr u, w1) \<Rightarrow>
     (case os_path_getsize en w1 temp_audio_path of
        Inl e \<Rightarrow> (Inl e, w1, None)
      | Inr file_size \<Rightarrow>
          if file_size = 0
          then (Inl (HTTPException 500 ''Downloaded audio file is empty''), w1, None)
          else if file_size > 25 * 1024 * 1024 then
            (case tempfile_mkdtemp en w1 ''audio_chunks_'' of
               Inl e \<Rightarrow> (Inl e, w1, None)
             | Inr (temp_dir, w2) \<Rightarrow>
                 (case chunked en w2 temp_dir of (r, w3) \<Rightarrow> (r, w3, Some temp_dir)))
          else
            (case transcribe_audio_chunk en w1 temp_audio_path of
               (Inl e, w2) \<Rightarrow> (Inl e, w2, None)
             | (Inr transcript_text, w2) \<Rightarrow>
                 (case remove_if_exists en w2 temp_audio_path of
                    Inl e \<Rightarrow> (Inl e, w2, None)
                  | Inr w3 \<Rightarrow> (Inr transcript_text, w3, None)))))"

text \<open>Lines 401 to 475: the inner \<^verbatim>\<open>try\<close> with its \<^verbatim>\<open>except IOError\<close>.\<close>

definition save_and_transcribe_guarded ::
  "env \<Rightarrow> world \<Rightarrow> bytes \<Rightarrow> py_exn option \<Rightarrow> (py_exn + string) \<times> world \<times> path option" where
  "save_and_transcribe_guarded en w received failure =
     (case save_and_transcribe en w received failure of
        (Inl e, w1, temp_dir) \<Rightarrow>
          if is_IOError e
          then (Inl (HTTPException 500 (''Error saving audio file: '' @ str_exn e)), w1, temp_dir)
          else (Inl e, w1, temp_dir)
      | (Inr t, w1, temp_dir) \<Rightarrow> (Inr t, w1, temp_dir))"

text \<open>Lines 389 to 475, the body of the outer \<^verbatim>\<open>try\<close>.\<close>

definition request_body ::
  "env \<Rightarrow> world \<Rightarrow> string \<Rightarrow> (py_exn + string) \<times> world \<times> path option" where
  "request_body en w audio_url =
     (case requests_get en audio_url of
        AudioGetRaised (RequestException m) \<Rightarrow>
          (Inl (HTTPException 400 (''Error accessing audio URL: '' @ m)), w, None)
      | AudioGetRaised e \<Rightarrow> (Inl e, w, None)
      | AudioReply status_code received failure \<Rightarrow>
          (case raise_for_status status_code of
             Inl e \<Rightarrow> (Inl (HTTPException 400 (''Error accessing audio URL: '' @ str_exn e)), w, None)
           | Inr u \<Rightarrow> save_and_transcribe_guarded en w received failure))"

text \<open>
  The cleanup both outer handlers run (lines 478 to 491 and 497 to 510): each
  deletion is guarded by an existence test and its failure is swallowed.
\<close>

definition cleanup :: "env \<Rightarrow> world \<Rightarrow> path option \<Rightarrow> world" where
  "cleanup en w temp_dir =
     (let w1 = (if path_exists w temp_audio_path
                then (case os_remove en w temp_audio_path of Inl e \<Rightarrow> w | Inr w' \<Rightarrow> w')
                else w)
      in case temp_dir of
           None \<Rightarrow> w1
         | Some d \<Rightarrow>
             if d \<noteq> [] \<and> path_exists w1 d
             then (case shutil_rmtree en w1 d of Inl e \<Rightarrow> w1 | Inr w' \<Rightarrow> w')
             else w1)"

text \<open>Lines 517 to 533.\<close>

definition classify_error :: "py_exn \<Rightarrow> py_exn" where
  "classify_error e =
     (let error_msg = map lower_char (str_exn e) in
      if str_contains ''413'' error_msg \<or> str_contains ''entity too large'' error_msg
           \<or> str_contains ''size limit'' error_msg \<or> str_contains ''exceeded'' error_msg
      then HTTPException 400
             ''Audio file is too large for the OpenAI API. Please use a shorter audio clip (under 25MB).''
      else if str_contains ''ffmpeg'' error_msg
      then HTTPException 500
             ''There was an issue processing the audio file. The server will attempt to use a fallback method.''
      else HTTPException 500 (''Error processing request: '' @ str_exn e))"

definition api_key_configured :: "env \<Rightarrow> bool" where
  "api_key_configured en = (OPENAI_API_KEY en \<noteq> None \<and> OPENAI_API_KEY en \<noteq> Some [])"

definition transcribe_podcast :: "env \<Rightarrow> world \<Rightarrow> string \<Rightarrow> (py_exn + string) \<times> world" where
  "transcribe_podcast en w audio_url =
     (if \<not> api_key_configured en
      then (Inl (HTTPException 500 ''OpenAI API key not configured''), w)
      else
        (case request_body en w audio_url of
           (Inr transcript, w1, temp_dir) \<Rightarrow> (Inr transcript, w1)
         | (Inl (HTTPException status_code detail), w1, temp_dir) \<Rightarrow>
             (Inl (HTTPException status_code detail), cleanup en w1 temp_dir)
         | (Inl e, w1, temp_dir) \<Rightarrow> (Inl (classify_error e), cleanup en w1 temp_dir)))"

section \<open>Concrete inputs\<close>

text \<open>A lookup-style payload and a search-style payload, for the concrete checks.\<close>

definition lookup_payload :: dict where
  "lookup_payload =
     [(''resultCount'', JInt 2),
      (''results'',
         JList [JObj [(''wrapperType'', JStr ''track''), (''collectionId'', JInt 7)],
                JObj [(''kind'', JStr ''podcast-episode''), (''trackId'', JInt 11),
                      (''collectionId'', JInt 7), (''trackName'', JStr ''Pilot'')]])]"

definition search_payload :: dict where
  "search_payload =
     [(''resultCount'', JInt 1),
      (''results'',
         JList [JObj [(''kind'', JStr ''podcast''), (''collectionId'', JInt 7),
                      (''collectionName'', JStr ''Show'')]])]"

text \<open>A service that answers every request with status 503.\<close>

definition unavailable_get :: http_get where
  "unavailable_get url params = Reply 503 (Inl (ValueError ''Expecting value''))"

text \<open>
  An environment for \<open>transcribe_podcast\<close>: a download of 30 MB, the encoder
  installed, a probed duration of 900 seconds, every extraction writing one byte,
  a transcriber that answers \<^verbatim>\<open>hello\<close>, and no deletion refused. The others
  differ from it in one or two collaborators each.
\<close>

definition demo_env :: env where
  "demo_env =
     \<lparr>OPENAI_API_KEY = Some ''sk-demo'',
      requests_get = (\<lambda>url. AudioReply 200 (replicate 31457280 0) None),
      ffmpeg_version = True,
      ffmpeg_duration = (\<lambda>p. ProbeDuration 900),
      ffmpeg_extract = (\<lambda>inp start dur out. Extracted (Some [1])),
      client_transcribe = (\<lambda>audio. Inr ''hello''),
      requests_post = (\<lambda>audio. PostRaised (RequestException ''unreachable'')),
      gettempdir = ''/tmp'',
      candidate_names = [''k3x9''],
      dir_st_size = 4096,
      deletion_fails = (\<lambda>p. False)\<rparr>"

text \<open>The encoder fails on every chunk of a file of 10 seconds.\<close>

definition failing_encoder_env :: env where
  "failing_encoder_env =
     demo_env\<lparr>ffmpeg_duration := (\<lambda>p. ProbeDuration 10),
              ffmpeg_extract := (\<lambda>inp start dur out. ExtractRaised (SubprocessError ''exit status 1''))\<rparr>"

text \<open>
  Three chunks with speech, told apart by their content, and an empty fourth one
  at the end of the audio.
\<close>

definition spoken_env :: env where
  "spoken_env =
     demo_env\<lparr>ffmpeg_extract :=
                (\<lambda>inp start dur out.
                   Extracted (Some (if start = 0 then [1] else if start = 300 then [2]
                                    else if start = 600 then [3] else []))),
              client_transcribe :=
                (\<lambda>audio. if audio = [1] then Inr ''one'' else if audio = [2] then Inr ''two''
                         else if audio = [3] then Inr ''three''
                         else Inl (PyException ''no speech''))\<rparr>"

text \<open>A download of exactly \<open>25 * 1024 * 1024\<close> bytes, an empty one, and one of two bytes.\<close>

definition threshold_env :: env where
  "threshold_env = demo_env\<lparr>requests_get := (\<lambda>url. AudioReply 200 (replicate 26214400 0) None)\<rparr>"

definition empty_download_env :: env where
  "empty_download_env = demo_env\<lparr>requests_get := (\<lambda>url. AudioReply 200 [] None)\<rparr>"

definition small_env :: env where
  "small_env = demo_env\<lparr>requests_get := (\<lambda>url. AudioReply 200 [1, 2] None)\<rparr>"

text \<open>File systems: nothing at all, and the 30 MB download already stored.\<close>

definition empty_world :: world where
  "empty_world = \<lparr>fs = (\<lambda>p. None), events = []\<rparr>"

definition downloaded_world :: world where
  "downloaded_world =
     \<lparr>fs = [temp_audio_path \<mapsto> File (replicate 31457280 0)], events = []\<rparr>"

text \<open>
  The duration probe exits with an error, as \<^verbatim>\<open>ffmpeg\<close> does when it is given
  the options of \<^verbatim>\<open>ffprobe\<close>, so that the duration is the estimate of lines 248
  to 254.
\<close>

definition probe_failing_env :: env where
  "probe_failing_env =
     demo_env\<lparr>ffmpeg_duration := (\<lambda>p. ProbeRaised (SubprocessError ''exit status 1''))\<rparr>"

text \<open>
  A file system that refuses every deletion, a server without an API key, and
  a file system in which \<^verbatim>\<open>temp_audio.mp3\<close> is a directory.
\<close>

definition locked_env :: env where
  "locked_env = spoken_env\<lparr>deletion_fails := (\<lambda>p. True)\<rparr>"

definition keyless_env :: env where
  "keyless_env = demo_env\<lparr>OPENAI_API_KEY := None\<rparr>"

definition blocked_world :: world where
  "blocked_world = \<lparr>fs = [temp_audio_path \<mapsto> Dir], events = []\<rparr>"

section \<open>Notions used in the statements and proofs\<close>

text \<open>The file system once a download is stored under \<^verbatim>\<open>temp_audio.mp3\<close>.\<close>

definition with_download :: "world \<Rightarrow> bytes \<Rightarrow> world" where
  "with_download w received = w\<lparr>fs := (fs w)(temp_audio_path \<mapsto> File received)\<rparr>"

text \<open>
  The number a string of decimal digits stands for, and the zero-padded index
  of a chunk name; both serve to show that chunk names are distinct.
\<close>

definition digits_value :: "string \<Rightarrow> nat" where
  "digits_value s = foldl (\<lambda>a c. 10 * a + (of_char c - 48)) 0 s"

definition padded :: "nat \<Rightarrow> string" where
  "padded i = replicate (3 - length (str_nat i)) CHR ''0'' @ str_nat i"

section \<open>Properties of itunes\_api.py\<close>

lemma format_loop_map: "format_loop acc items = acc @ map format_item items"
  by (induction items arbitrary: acc) simp_all

lemma as_items_objs: "as_items (map JObj items) = Some items"
  by (induction items) simp_all

lemma get_results_items:
  "dict_get p ''results'' (JList []) = JList (map JObj items) \<Longrightarrow> get_results p = Inr items"
  by (simp add: get_results_def as_items_objs)

text \<open>
  Claim C9. For a payload whose \<^verbatim>\<open>results\<close> is a list of dicts,
  \<open>format_podcast_results\<close> formats the entries in order, one output per
  entry; it leaves out the first entry exactly when the list is non-empty and
  that entry has no \<^verbatim>\<open>kind\<close> key but has a \<^verbatim>\<open>collectionId\<close> key, and
  leaves out nothing otherwise.
\<close>

theorem format_podcast_results_skips_header:
  assumes "dict_get p ''results'' (JList []) = JList (map JObj items)"
  shows "format_podcast_results p =
           Inr (map format_item
                  (if items \<noteq> [] \<and> \<not> dict_has (hd items) ''kind''
                        \<and> dict_has (hd items) ''collectionId''
                   then tl items else items))"
  using get_results_items [OF assms]
  by (cases items)
     (simp_all add: format_podcast_results_def format_loop_map skip_podcast_entry_def
        is_lookup_header_def)

theorem format_podcast_results_skips_header_witness:
  "format_podcast_results lookup_payload =
     Inr [[(''id'', JInt 11), (''podcast_id'', JInt 7), (''podcast_title'', JStr ''''),
           (''title'', JStr ''Pilot''), (''description'', JStr ''''), (''artwork_url'', JStr ''''),
           (''audio_url'', JStr ''''), (''duration'', JInt 0), (''release_date'', JStr ''''),
           (''episode_number'', JStr ''''), (''season'', JStr ''''), (''type'', JStr ''episode'')]]
   \<and> format_podcast_results search_payload =
     Inr [[(''id'', JInt 7), (''title'', JStr ''Show''), (''description'', JStr ''''),
           (''artwork_url'', JStr ''''), (''artist'', JStr ''''), (''feed_url'', JStr ''''),
           (''genre'', JStr ''''), (''release_date'', JStr ''''), (''episode_count'', JInt 0),
           (''country'', JStr ''''), (''type'', JStr ''podcast'')]]"
  using format_podcast_results_skips_header
          [of lookup_payload
              "[[(''wrapperType'', JStr ''track''), (''collectionId'', JInt 7)],
                [(''kind'', JStr ''podcast-episode''), (''trackId'', JInt 11),
                 (''collectionId'', JInt 7), (''trackName'', JStr ''Pilot'')]]"]
        format_podcast_results_skips_header
          [of search_payload
              "[[(''kind'', JStr ''podcast''), (''collectionId'', JInt 7),
                 (''collectionName'', JStr ''Show'')]]"]
  by (simp add: lookup_payload_def search_payload_def dict_get_def dict_has_def format_item_def)

lemma search_itunes_try_cases:
  "search_itunes_try get q m e l c ap =
    (case get (fst (itunes_request q m e l c ap)) (snd (itunes_request q m e l c ap)) of
        GetRaised ex \<Rightarrow> Inl ex
      | Reply code body \<Rightarrow>
          if 400 \<le> code \<and> code < 600 then Inl (RequestException ''HTTP error'')
          else (case body of
                  Inl ex \<Rightarrow> Inl ex
                | Inr (JObj d) \<Rightarrow> Inr (JObj d)
                | Inr data \<Rightarrow>
                    Inl (AttributeError
                          ([CHR 0x27] @ type_name data @ [CHR 0x27] @
                           '' object has no attribute '' @ [CHR 0x27] @ ''get'' @ [CHR 0x27]))))"
  by (auto simp: search_itunes_try_def raise_for_status_def case_prod_beta
           split: http_reply.splits sum.splits json.splits)

lemma search_itunes_handlers:
  "search_itunes_try get q m e l c ap = Inl ex \<Longrightarrow>
   \<exists>msg. search_itunes get q m e l c ap =
           Inr (JObj [(''error'', JStr msg), (''resultCount'', JInt 0), (''results'', JList [])])"
  by (cases ex) (simp_all add: search_itunes_def error_dict_def)

text \<open>
  Claim C10. \<open>search_itunes\<close> never lets an exception out: for every
  behaviour of the HTTP layer and every argument it returns a dict. When the
  request raises, the status is an HTTP error (400 to 599), the body does not
  parse, or the parsed value is not a dict, the dict returned is
  \<^verbatim>\<open>{"error": msg, "resultCount": 0, "results": []}\<close> for some message.
\<close>

theorem search_itunes_total:
  "(\<exists>d. search_itunes get q m e l c ap = Inr (JObj d)) \<and>
   ((case get (fst (itunes_request q m e l c ap)) (snd (itunes_request q m e l c ap)) of
       GetRaised ex \<Rightarrow> True
     | Reply code body \<Rightarrow>
         (400 \<le> code \<and> code < 600) \<or>
         (case body of Inl ex \<Rightarrow> True | Inr data \<Rightarrow> \<forall>d. data \<noteq> JObj d))
    \<longrightarrow> (\<exists>msg. search_itunes get q m e l c ap =
           Inr (JObj [(''error'', JStr msg), (''resultCount'', JInt 0),
                      (''results'', JList [])])))"
proof -
  have fails: "\<exists>ex. search_itunes_try get q m e l c ap = Inl ex"
    if "case get (fst (itunes_request q m e l c ap)) (snd (itunes_request q m e l c ap)) of
          GetRaised ex \<Rightarrow> True
        | Reply code body \<Rightarrow>
            (400 \<le> code \<and> code < 600) \<or>
            (case body of Inl ex \<Rightarrow> True | Inr data \<Rightarrow> \<forall>d. data \<noteq> JObj d)"
    using that
    by (auto simp: search_itunes_try_cases split: http_reply.splits sum.splits json.splits)
  have ok: "\<exists>d. search_itunes get q m e l c ap = Inr (JObj d)"
  proof (cases "search_itunes_try get q m e l c ap")
    case (Inl ex)
    then show ?thesis using search_itunes_handlers by blast
  next
    case (Inr data)
    then obtain d where "data = JObj d"
      by (auto simp: search_itunes_try_cases
               split: http_reply.splits sum.splits json.splits if_splits)
    with Inr show ?thesis by (simp add: search_itunes_def)
  qed
  show ?thesis using ok fails search_itunes_handlers by blast
qed

theorem search_itunes_total_witness:
  "search_itunes unavailable_get ''ai'' ''podcast'' (Some ''podcast'') 10 ''US'' None =
     Inr (JObj [(''error'', JStr ''Request failed: HTTP error''), (''resultCount'', JInt 0),
                (''results'', JList [])])"
  using search_itunes_total
          [of unavailable_get "''ai''" "''podcast''" "Some ''podcast''" 10 "''US''" None]
  by (simp add: unavailable_get_def search_itunes_def search_itunes_try_def itunes_request_def
        lookup_podcast_id_def raise_for_status_def error_dict_def)

section \<open>Properties of main.py\<close>

subsection \<open>Decimal digits and chunk names\<close>

lemma digits_value_snoc: "digits_value (s @ [c]) = 10 * digits_value s + (of_char c - 48)"
  by (simp add: digits_value_def)

lemma of_char_digit: "d < 10 \<Longrightarrow> (of_char (digit_char d) :: nat) = 48 + d"
proof -
  assume "d < 10"
  then have "d \<in> {0, 1, 2, 3, 4, 5, 6, 7, 8, 9}" by auto
  then show ?thesis by (auto simp: digit_char_def)
qed

lemma digits_value_str_nat: "digits_value (str_nat n) = n"
proof (induction n rule: str_nat.induct)
  case (1 n)
  show ?case
  proof (cases "n < 10")
    case True
    then show ?thesis
      by (subst str_nat.simps) (simp add: digits_value_def of_char_digit)
  next
    case False
    with "1" have "digits_value (str_nat (n div 10)) = n div 10" by simp
    with False show ?thesis
      by (subst str_nat.simps) (simp add: digits_value_snoc of_char_digit)
  qed
qed

lemma digits_value_zeros: "digits_value (replicate k CHR ''0'' @ s) = digits_value s"
proof -
  have "foldl (\<lambda>a c. 10 * a + (of_char c - 48)) 0 (replicate k CHR ''0'') = (0::nat)"
    by (induction k) simp_all
  then show ?thesis by (simp add: digits_value_def)
qed

lemma str_nat_nonempty: "str_nat n \<noteq> []"
  by (subst str_nat.simps) simp

lemma padded_inj: "padded i = padded j \<Longrightarrow> i = j"
  by (metis padded_def digits_value_zeros digits_value_str_nat)

lemma chunk_name_padded: "chunk_name i = ''chunk_'' @ padded i @ ''.mp3''"
  by (simp add: chunk_name_def padded_def)

lemma chunk_name_inj: "chunk_name i = chunk_name j \<Longrightarrow> i = j"
  by (auto simp: chunk_name_padded dest: padded_inj)

lemma chunk_name_hd: "chunk_name i \<noteq> [] \<and> hd (chunk_name i) = CHR ''c''"
  by (simp add: chunk_name_def)

lemma os_path_join_chunk:
  "chunk_path d i =
     (if d = [] \<or> last d = CHR ''/'' then d else d @ ''/'') @ chunk_name i"
  using chunk_name_hd [of i] by (auto simp: os_path_join_def chunk_path_def)

lemma chunk_path_inj:
  "chunk_path d i = chunk_path d j \<Longrightarrow> i = j"
  by (auto simp: os_path_join_chunk dest: chunk_name_inj)

lemma chunk_path_neq_dir: "chunk_path d i \<noteq> d"
proof
  assume "chunk_path d i = d"
  then have "length (chunk_path d i) = length d" by simp
  then show False using chunk_name_hd [of i] by (auto simp: os_path_join_chunk split: if_splits)
qed

lemma chunk_path_has_k: "CHR ''k'' \<in> set (chunk_path d i)"
  unfolding os_path_join_chunk by (simp add: chunk_name_def)

lemma chunk_path_neq_temp_audio: "chunk_path d i \<noteq> temp_audio_path"
proof
  assume "chunk_path d i = temp_audio_path"
  then have "CHR ''k'' \<in> set temp_audio_path" using chunk_path_has_k by metis
  then show False by (simp add: temp_audio_path_def)
qed

lemma str_nat_small: "str_nat 0 = ''0''" "str_nat 1 = ''1''" "str_nat 2 = ''2''" "str_nat 3 = ''3''"
  by (simp_all add: str_nat.simps digit_char_def)

lemma chunk_name_small:
  "chunk_name 0 = ''chunk_000.mp3''" "chunk_name 1 = ''chunk_001.mp3''"
  "chunk_name 2 = ''chunk_002.mp3''" "chunk_name 3 = ''chunk_003.mp3''"
  by code_simp+



lemma fs_log_event [simp]: "fs (log_event ev w) = fs w"
  by (simp add: log_event_def)

lemma events_log_event [simp]: "events (log_event ev w) = events w @ [ev]"
  by (simp add: log_event_def)

lemma mkdtemp_calls_append [simp]:
  "mkdtemp_calls (xs @ ys) = mkdtemp_calls xs @ mkdtemp_calls ys"
  by (induction xs rule: mkdtemp_calls.induct) simp_all

lemma extract_calls_append [simp]:
  "extract_calls (xs @ ys) = extract_calls xs @ extract_calls ys"
  by (induction xs rule: extract_calls.induct) simp_all

lemma transcribe_calls_append [simp]:
  "transcribe_calls (xs @ ys) = transcribe_calls xs @ transcribe_calls ys"
  by (induction xs rule: transcribe_calls.induct) simp_all

lemma write_file_Inr:
  "write_file w p d = Inr w' \<Longrightarrow> fs w' = (fs w)(p \<mapsto> File d) \<and> events w' = events w \<and> fs w p \<noteq> Some Dir"
  by (auto simp: write_file_def split: option.splits node.splits)

lemma write_file_Inl: "write_file w p d = Inl e \<Longrightarrow> fs w p = Some Dir"
  by (auto simp: write_file_def split: option.splits node.splits)

lemma read_slice:
  "pos = min (k * cs) (length content) \<Longrightarrow>
   take cs (drop pos content) = take cs (drop (k * cs) content)"
  by (cases "k * cs \<le> length content") (simp_all add: min_def)

lemma read_advance:
  "pos = min (k * cs) (length content) \<Longrightarrow>
   pos + length (take cs (drop (k * cs) content)) = min (Suc k * cs) (length content)"
  by (cases "k * cs \<le> length content") (auto simp: min_def)

lemma split_python_loop_slices:
  assumes "fs w input_file = Some (File content)"
      and "\<forall>i. k \<le> i \<and> i < n \<longrightarrow> chunk_path out i \<noteq> input_file"
      and "pos = min (k * cs) (length content)"
      and "split_python_loop input_file out cs [k..<n] pos w acc = (r, w')"
  shows "events w' = events w \<and>
         (\<forall>p. (\<forall>i. k \<le> i \<and> i < n \<longrightarrow> p \<noteq> chunk_path out i) \<longrightarrow> fs w' p = fs w p) \<and>
         (case r of
            Inr chunks \<Rightarrow>
              chunks = acc @ map (chunk_path out) [k..<n] \<and>
              (\<forall>i. k \<le> i \<and> i < n \<longrightarrow>
                 fs w' (chunk_path out i) = Some (File (take cs (drop (i * cs) content))))
          | Inl e \<Rightarrow> \<exists>i. k \<le> i \<and> i < n \<and> fs w (chunk_path out i) = Some Dir)"
  using assms
proof (induction "n - k" arbitrary: k w acc pos)
  case 0
  then show ?case by auto
next
  case (Suc m)
  then have kn: "k < n" and upt: "[k..<n] = k # [Suc k..<n]"
    by (auto simp: upt_conv_Cons)
  let ?data = "take cs (drop (k * cs) content)"
  have data: "read_at w input_file pos cs = ?data"
    using Suc.prems(1,3) by (simp add: read_at_def read_slice)
  show ?case
  proof (cases "write_file w (chunk_path out k) ?data")
    case (Inl e)
    then have "r = Inl e" "w' = w"
      using Suc.prems(4) upt data by (simp_all add: Let_def)
    moreover have "fs w (chunk_path out k) = Some Dir"
      using Inl by (rule write_file_Inl)
    ultimately show ?thesis using kn by auto
  next
    case (Inr w1)
    then have w1: "fs w1 = (fs w)(chunk_path out k \<mapsto> File ?data)" "events w1 = events w"
      using write_file_Inr by blast+
    have rec: "split_python_loop input_file out cs [Suc k..<n] (pos + length ?data) w1
                 (acc @ [chunk_path out k]) = (r, w')"
      using Suc.prems(4) upt data Inr by (simp add: Let_def)
    have in1: "fs w1 input_file = Some (File content)"
      using Suc.prems(1,2) kn w1 by auto
    have pos1: "pos + length ?data = min (Suc k * cs) (length content)"
      using Suc.prems(3) by (rule read_advance)
    have m: "m = n - Suc k" using Suc.hyps(2) by simp
    have IH: "events w' = events w1 \<and>
         (\<forall>p. (\<forall>i. Suc k \<le> i \<and> i < n \<longrightarrow> p \<noteq> chunk_path out i) \<longrightarrow> fs w' p = fs w1 p) \<and>
         (case r of
            Inr chunks \<Rightarrow>
              chunks = (acc @ [chunk_path out k]) @ map (chunk_path out) [Suc k..<n] \<and>
              (\<forall>i. Suc k \<le> i \<and> i < n \<longrightarrow>
                 fs w' (chunk_path out i) = Some (File (take cs (drop (i * cs) content))))
          | Inl e \<Rightarrow> \<exists>i. Suc k \<le> i \<and> i < n \<and> fs w1 (chunk_path out i) = Some Dir)"
      using Suc.hyps(1) [OF m in1 _ pos1 rec] Suc.prems(2) by auto
    have other: "chunk_path out i \<noteq> chunk_path out k" if "Suc k \<le> i" for i
      using that chunk_path_inj [of out i k] by auto
    have ev: "events w' = events w" using IH w1 by simp
    have frame: "\<forall>p. (\<forall>i. k \<le> i \<and> i < n \<longrightarrow> p \<noteq> chunk_path out i) \<longrightarrow> fs w' p = fs w p"
      using IH w1 kn by auto
    have res: "case r of
            Inr chunks \<Rightarrow>
              chunks = acc @ map (chunk_path out) [k..<n] \<and>
              (\<forall>i. k \<le> i \<and> i < n \<longrightarrow>
                 fs w' (chunk_path out i) = Some (File (take cs (drop (i * cs) content))))
          | Inl e \<Rightarrow> \<exists>i. k \<le> i \<and> i < n \<and> fs w (chunk_path out i) = Some Dir"
    proof (cases r)
      case (Inl e)
      then obtain i where i: "Suc k \<le> i" "i < n" "fs w1 (chunk_path out i) = Some Dir"
        using IH by auto
      then have "fs w (chunk_path out i) = Some Dir" using w1 other by auto
      moreover have "k \<le> i" using i(1) by simp
      ultimately show ?thesis using Inl i(2) by auto
    next
      case (Inr chunks)
      then have c: "chunks = acc @ map (chunk_path out) [k..<n]"
        and later: "\<forall>i. Suc k \<le> i \<and> i < n \<longrightarrow>
                 fs w' (chunk_path out i) = Some (File (take cs (drop (i * cs) content)))"
        using IH upt by auto
      have "fs w' (chunk_path out k) = fs w1 (chunk_path out k)"
        using IH other by (metis)
      then have first: "fs w' (chunk_path out k) = Some (File ?data)" using w1 by simp
      have "fs w' (chunk_path out i) = Some (File (take cs (drop (i * cs) content)))"
        if "k \<le> i" "i < n" for i
        using that first later by (cases "i = k") auto
      then show ?thesis using Inr c by simp
    qed
    show ?thesis using ev frame res by blast
  qed
qed


lemma ceil_div_strict:
  assumes "0 < cs" and "i < nat \<lceil>real len / real cs\<rceil>"
  shows "i * cs < len"
proof -
  let ?x = "real len / real cs"
  have "int i < \<lceil>?x\<rceil>" using assms(2) by simp
  then have "of_int (int i) < ?x" by (simp only: less_ceiling_iff)
  then have "real i * real cs < real len" using assms(1) by (simp add: pos_less_divide_eq)
  then have "real (i * cs) < real len" by simp
  then show ?thesis by (simp only: of_nat_less_iff)
qed




lemma chunk_path_small:
  "chunk_path ''/tmp/audio_chunks_k3x9'' 0 = ''/tmp/audio_chunks_k3x9/chunk_000.mp3''"
  "chunk_path ''/tmp/audio_chunks_k3x9'' 1 = ''/tmp/audio_chunks_k3x9/chunk_001.mp3''"
  "chunk_path ''/tmp/audio_chunks_k3x9'' 2 = ''/tmp/audio_chunks_k3x9/chunk_002.mp3''"
  "chunk_path ''/tmp/audio_chunks_k3x9'' 3 = ''/tmp/audio_chunks_k3x9/chunk_003.mp3''"
  by (simp_all add: chunk_path_def os_path_join_def chunk_name_small del: One_nat_def)


subsection \<open>The encoder loop\<close>

lemma has_content_cong: "fs w' p = fs w p \<Longrightarrow> has_content en w' p = has_content en w p"
  by (simp add: has_content_def path_exists_def os_path_getsize_def)

lemma split_ffmpeg_loop_result:
  assumes "split_ffmpeg_loop en inp out c n ixs w acc = (r, w')" and "distinct ixs"
  shows "(\<forall>p. (\<forall>i\<in>set ixs. p \<noteq> chunk_path out i) \<longrightarrow> fs w' p = fs w p) \<and>
         (\<forall>p. fs w' p = Some Dir \<longrightarrow> fs w p = Some Dir) \<and>
         mkdtemp_calls (events w') = mkdtemp_calls (events w) \<and>
         transcribe_calls (events w') = transcribe_calls (events w) \<and>
         (case r of
            Inr chunks \<Rightarrow>
              extract_calls (events w') =
                extract_calls (events w) @ map (\<lambda>i. (int i * c, chunk_path out i)) ixs \<and>
              (\<exists>P. chunks = acc @ map (chunk_path out) (filter P ixs) \<and>
                   (\<forall>i\<in>set ixs. P i \<longrightarrow> has_content en w' (chunk_path out i)))
          | Inl e \<Rightarrow> True)"
  using assms
proof (induction ixs arbitrary: w acc)
  case Nil
  then show ?case by auto
next
  case (Cons i rest)
  let ?out = "chunk_path out i"
  let ?w1 = "log_event (Extract (int i * c) ?out) w"
  have fresh: "i \<notin> set rest" and drest: "distinct rest" using Cons.prems(2) by auto
  have other: "?out \<noteq> chunk_path out j" if "j \<in> set rest" for j
    using that fresh chunk_path_inj [of out i j] by auto
  have step: "?case"
    if rec: "split_ffmpeg_loop en inp out c n rest w2 acc2 = (r, w')"
      and w2fs: "fs w2 = fs w \<or> (\<exists>data. fs w2 = (fs w)(?out \<mapsto> File data))"
      and w2ev: "events w2 = events w @ [Extract (int i * c) ?out]"
      and acc2: "acc2 = acc \<or> (acc2 = acc @ [?out] \<and> has_content en w2 ?out)"
    for w2 acc2
  proof -
    note IH = Cons.IH [OF rec drest]
    have frame: "\<forall>p. (\<forall>j\<in>set (i # rest). p \<noteq> chunk_path out j) \<longrightarrow> fs w' p = fs w p"
      using IH w2fs by auto
    have dirs: "\<forall>p. fs w' p = Some Dir \<longrightarrow> fs w p = Some Dir"
    proof (intro allI impI)
      fix p assume "fs w' p = Some Dir"
      then have "fs w2 p = Some Dir" using IH by blast
      then show "fs w p = Some Dir" using w2fs by (auto split: if_splits)
    qed
    have calls: "mkdtemp_calls (events w') = mkdtemp_calls (events w)"
       "transcribe_calls (events w') = transcribe_calls (events w)"
      using IH w2ev by simp_all
    have fr: "\<forall>p. (\<forall>j\<in>set rest. p \<noteq> chunk_path out j) \<longrightarrow> fs w' p = fs w2 p"
      using IH by blast
    have same: "fs w' ?out = fs w2 ?out" using fr other by simp
    have res: "case r of
            Inr chunks \<Rightarrow>
              extract_calls (events w') =
                extract_calls (events w) @ map (\<lambda>i. (int i * c, chunk_path out i)) (i # rest) \<and>
              (\<exists>P. chunks = acc @ map (chunk_path out) (filter P (i # rest)) \<and>
                   (\<forall>j\<in>set (i # rest). P j \<longrightarrow> has_content en w' (chunk_path out j)))
          | Inl e \<Rightarrow> True"
    proof (cases r)
      case (Inl e)
      then show ?thesis by simp
    next
      case (Inr chunks)
      then obtain P where ex: "extract_calls (events w') =
                extract_calls (events w2) @ map (\<lambda>i. (int i * c, chunk_path out i)) rest"
        and ch: "chunks = acc2 @ map (chunk_path out) (filter P rest)"
        and hc: "\<forall>j\<in>set rest. P j \<longrightarrow> has_content en w' (chunk_path out j)"
        using IH by auto
      have ex': "extract_calls (events w') =
                extract_calls (events w) @ map (\<lambda>i. (int i * c, chunk_path out i)) (i # rest)"
        using ex w2ev by simp
      show ?thesis
      proof (cases "acc2 = acc")
        case True
        let ?P = "\<lambda>j. j \<noteq> i \<and> P j"
        have "filter ?P rest = filter P rest"
          using fresh by (intro filter_cong) auto
        then have A: "chunks = acc @ map (chunk_path out) (filter ?P (i # rest))"
          using ch True by simp
        have B: "\<forall>j\<in>set (i # rest). ?P j \<longrightarrow> has_content en w' (chunk_path out j)"
          using hc by simp
        have E: "\<exists>Q. chunks = acc @ map (chunk_path out) (filter Q (i # rest)) \<and>
                   (\<forall>j\<in>set (i # rest). Q j \<longrightarrow> has_content en w' (chunk_path out j))"
          by (rule exI [of _ ?P]) (rule conjI [OF A B])
        show ?thesis unfolding Inr sum.case by (rule conjI [OF ex' E])
      next
        case False
        then have a2: "acc2 = acc @ [?out]" and h: "has_content en w2 ?out" using acc2 by auto
        let ?P = "\<lambda>j. j = i \<or> P j"
        have "filter ?P rest = filter P rest"
          using fresh by (intro filter_cong) auto
        then have A: "chunks = acc @ map (chunk_path out) (filter ?P (i # rest))"
          using ch a2 by simp
        have "has_content en w' ?out" using h has_content_cong [OF same] by simp
        then have B: "\<forall>j\<in>set (i # rest). ?P j \<longrightarrow> has_content en w' (chunk_path out j)"
          using hc by auto
        have E: "\<exists>Q. chunks = acc @ map (chunk_path out) (filter Q (i # rest)) \<and>
                   (\<forall>j\<in>set (i # rest). Q j \<longrightarrow> has_content en w' (chunk_path out j))"
          by (rule exI [of _ ?P]) (rule conjI [OF A B])
        show ?thesis unfolding Inr sum.case by (rule conjI [OF ex' E])
      qed
    qed
    show ?thesis using frame dirs calls res by blast
  qed
  show ?case
  proof (cases "ffmpeg_extract en inp (int i * c) c ?out")
    case (ExtractRaised e)
    show ?thesis
    proof (cases "\<exists>m. e = SubprocessError m \<and> \<not> int i < n - 1")
      case True
      then obtain m where e: "e = SubprocessError m" and last: "\<not> int i < n - 1" by auto
      have rec: "split_ffmpeg_loop en inp out c n rest ?w1 acc = (r, w')"
        using Cons.prems(1) ExtractRaised e last by (simp add: Let_def)
      show ?thesis by (rule step [OF rec]) simp_all
    next
      case False
      then have "w' = ?w1 \<and> (\<exists>x. r = Inl x)"
        using Cons.prems(1) ExtractRaised by (cases e) (auto simp: Let_def split: if_splits)
      then show ?thesis by auto
    qed
  next
    case (Extracted written)
    define w2 where "w2 = (case written of None \<Rightarrow> ?w1
                           | Some data \<Rightarrow> ?w1\<lparr>fs := (fs ?w1)(?out \<mapsto> File data)\<rparr>)"
    have w2fs: "fs w2 = fs w \<or> (\<exists>data. fs w2 = (fs w)(?out \<mapsto> File data))"
      by (cases written) (auto simp: w2_def)
    have w2ev: "events w2 = events w @ [Extract (int i * c) ?out]"
      by (cases written) (simp_all add: w2_def)
    show ?thesis
    proof (cases "has_content en w2 ?out")
      case True
      have rec: "split_ffmpeg_loop en inp out c n rest w2 (acc @ [?out]) = (r, w')"
        using Cons.prems(1) Extracted True by (simp add: Let_def w2_def)
      show ?thesis by (rule step [OF rec w2fs w2ev]) (simp add: True)
    next
      case False
      have rec: "split_ffmpeg_loop en inp out c n rest w2 acc = (r, w')"
        using Cons.prems(1) Extracted False by (simp add: Let_def w2_def)
      show ?thesis by (rule step [OF rec w2fs w2ev]) simp
    qed
  qed
qed

subsection \<open>What the split returns\<close>

lemma max_py_int: "max 1 (py_int x + 1) = max 1 (\<lfloor>x\<rfloor> + 1)"
proof (cases "0 \<le> x")
  case True
  then show ?thesis by (simp add: py_int_def)
next
  case False
  then have "x \<le> of_int 0" by simp
  then have a: "\<lceil>x\<rceil> \<le> 0" by (simp only: ceiling_le_iff)
  have b: "\<lfloor>x\<rfloor> \<le> \<lceil>x\<rceil>" by (rule floor_le_ceiling)
  have c: "py_int x = \<lceil>x\<rceil>" using False by (simp add: py_int_def)
  show ?thesis unfolding c using a b by linarith
qed

lemma estimate_count:
  assumes "0 < (c::int)" and "1 \<le> (n::int)"
  shows "max 1 (\<lfloor>real_of_int (n * c) / real_of_int c\<rfloor> + 1) = n + 1"
proof -
  have "real_of_int (n * c) / real_of_int c = real_of_int n" using assms(1) by simp
  then show ?thesis using assms(2) by simp
qed

lemma split_ffmpeg_unfold:
  assumes "check_ffmpeg_installed en"
      and "split_audio_file en w inp out c mb = (Inr chunks, w')"
  shows "\<exists>w1 d. os_makedirs w out = Inr w1 \<and> probe_duration en w1 inp c mb = Inr d \<and> c \<noteq> 0 \<and>
           split_ffmpeg_loop en inp out c (max 1 (\<lfloor>d / real_of_int c\<rfloor> + 1))
             [0..<nat (max 1 (\<lfloor>d / real_of_int c\<rfloor> + 1))] w1 [] = (Inr chunks, w')"
  using assms
  by (auto simp: split_audio_file_def Let_def max_py_int split: sum.splits if_splits)

lemma os_makedirs_Inr:
  "os_makedirs w d = Inr w1 \<Longrightarrow>
     events w1 = events w \<and> fs w1 d = Some Dir \<and> (\<forall>p. p \<noteq> d \<longrightarrow> fs w1 p = fs w p) \<and>
     (fs w d = None \<or> fs w d = Some Dir)"
  by (auto simp: os_makedirs_def split: option.splits node.splits)

lemma split_python_unfold:
  assumes "\<not> check_ffmpeg_installed en"
      and "split_audio_file en w inp out c mb = (Inr chunks, w')"
  shows "\<exists>w1 content. os_makedirs w out = Inr w1 \<and> fs w1 inp = Some (File content) \<and>
           py_int (real_of_int mb * 0.95 * 1024 * 1024) \<noteq> 0 \<and>
           split_python_loop inp out (nat (py_int (real_of_int mb * 0.95 * 1024 * 1024)))
             [0..<nat \<lceil>real (length content)
                         / real_of_int (py_int (real_of_int mb * 0.95 * 1024 * 1024))\<rceil>] 0 w1 []
             = (Inr chunks, w')"
  using assms
  unfolding split_audio_file_def split_audio_file_python_def Let_def os_path_getsize_def
  by (auto split: sum.splits if_splits option.splits node.splits)

lemma neg_chunk_size_no_chunks:
  assumes "cs < (0::int)"
  shows "nat \<lceil>real len / real_of_int cs\<rceil> = 0"
proof -
  have "real len / real_of_int cs \<le> 0" using assms by (simp add: divide_nonneg_neg)
  then have "\<lceil>real len / real_of_int cs\<rceil> \<le> 0" by (simp add: ceiling_le_iff)
  then show ?thesis by simp
qed

lemma chunk_paths_distinct: "distinct ixs \<Longrightarrow> distinct (map (chunk_path out) ixs)"
  by (auto simp: distinct_map inj_on_def dest: chunk_path_inj)

lemma split_result_ordered:
  assumes run: "split_audio_file en w inp out c mb = (Inr chunks, w')"
      and noalias: "\<forall>i. chunk_path out i \<noteq> inp"
  shows "(\<exists>ixs. chunks = map (chunk_path out) ixs \<and> sorted_wrt (<) ixs) \<and>
         (\<forall>p\<in>set chunks. has_content en w' p)"
proof (cases "check_ffmpeg_installed en")
  case True
  from split_ffmpeg_unfold [OF True run] obtain w1 d where
    loop: "split_ffmpeg_loop en inp out c (max 1 (\<lfloor>d / real_of_int c\<rfloor> + 1))
             [0..<nat (max 1 (\<lfloor>d / real_of_int c\<rfloor> + 1))] w1 [] = (Inr chunks, w')"
    by blast
  let ?ixs = "[0..<nat (max 1 (\<lfloor>d / real_of_int c\<rfloor> + 1))]"
  from split_ffmpeg_loop_result [OF loop] obtain P where
    ch: "chunks = map (chunk_path out) (filter P ?ixs)"
    and hc: "\<forall>i\<in>set ?ixs. P i \<longrightarrow> has_content en w' (chunk_path out i)"
    by auto
  have "sorted_wrt (<) (filter P ?ixs)" by (rule sorted_wrt_filter) simp
  moreover have "\<forall>p\<in>set chunks. has_content en w' p" using ch hc by auto
  ultimately show ?thesis using ch by blast
next
  case False
  from split_python_unfold [OF False run] obtain w1 content where
    inp1: "fs w1 inp = Some (File content)"
    and cs0: "py_int (real_of_int mb * 0.95 * 1024 * 1024) \<noteq> 0"
    and loop: "split_python_loop inp out (nat (py_int (real_of_int mb * 0.95 * 1024 * 1024)))
             [0..<nat \<lceil>real (length content)
                         / real_of_int (py_int (real_of_int mb * 0.95 * 1024 * 1024))\<rceil>] 0 w1 []
             = (Inr chunks, w')"
    by blast
  define csi where "csi = py_int (real_of_int mb * 0.95 * 1024 * 1024)"
  define n where "n = nat \<lceil>real (length content) / real_of_int csi\<rceil>"
  note loop' = loop [folded csi_def, folded n_def]
  have char: "events w' = events w1 \<and>
         (\<forall>p. (\<forall>i. 0 \<le> i \<and> i < n \<longrightarrow> p \<noteq> chunk_path out i) \<longrightarrow> fs w' p = fs w1 p) \<and>
         (case Inr chunks :: py_exn + path list of
            Inr chunks \<Rightarrow>
              chunks = [] @ map (chunk_path out) [0..<n] \<and>
              (\<forall>i. 0 \<le> i \<and> i < n \<longrightarrow>
                 fs w' (chunk_path out i)
                   = Some (File (take (nat csi) (drop (i * nat csi) content))))
          | Inl e \<Rightarrow> \<exists>i. 0 \<le> i \<and> i < n \<and> fs w1 (chunk_path out i) = Some Dir)"
    by (rule split_python_loop_slices [OF inp1 _ _ loop']) (use noalias in auto)
  then have ch: "chunks = map (chunk_path out) [0..<n]"
    and files: "\<And>i. i < n \<Longrightarrow>
                 fs w' (chunk_path out i)
                   = Some (File (take (nat csi) (drop (i * nat csi) content)))"
    by auto
  have "has_content en w' (chunk_path out i)" if "i < n" for i
  proof -
    have pos: "0 < csi"
    proof (rule ccontr)
      assume "\<not> 0 < csi"
      then have "csi < 0" using cs0 by (simp add: csi_def)
      then have "n = 0" unfolding n_def by (rule neg_chunk_size_no_chunks)
      then show False using that by simp
    qed
    then have eq: "real_of_int csi = real (nat csi)" by simp
    have "i * nat csi < length content"
      using ceil_div_strict [of "nat csi" i "length content"] pos that
      by (simp add: n_def eq del: of_nat_nat)
    then show ?thesis
      using files [OF that] pos
      by (simp add: has_content_def path_exists_def os_path_getsize_def)
  qed
  then have "\<forall>p\<in>set chunks. has_content en w' p" using ch by auto
  moreover have "sorted_wrt (<) [0..<n]" by simp
  ultimately show ?thesis using ch by blast
qed

lemma sorted_lt_distinct: "sorted_wrt (<) (ixs :: nat list) \<Longrightarrow> distinct ixs"
  by (induction ixs) auto

lemma chunked_empty_split:
  "split_audio_file en w temp_audio_path d 300 20 = (Inr [], w1) \<Longrightarrow>
   chunked en w d =
     (Inl (PyException
            ''Error processing audio chunks: Failed to split audio file into chunks''), w1)"
  by (simp add: chunked_def chunked_try_def)

text \<open>
  Claim C7, as amended. When the split returns (and the input is not itself
  one of the chunk files), the list returned is ordered by strictly increasing
  chunk index, has no duplicate, and every listed path exists with a non-zero
  size in the file system the split leaves. The list may be empty: the split
  returns it as it is, and it is the caller, \<open>transcribe_podcast\<close>, that turns an
  empty list into the failure "Failed to split audio file into chunks".
\<close>

theorem split_result_postcondition:
  "(split_audio_file en w inp out c mb = (Inr chunks, w') \<and> (\<forall>i. chunk_path out i \<noteq> inp)
      \<longrightarrow> (\<exists>ixs. chunks = map (chunk_path out) ixs \<and> sorted_wrt (<) ixs)
          \<and> distinct chunks
          \<and> (\<forall>p\<in>set chunks. has_content en w' p))
   \<and> (split_audio_file en w temp_audio_path d 300 20 = (Inr [], w1)
      \<longrightarrow> chunked en w d =
            (Inl (PyException
                   ''Error processing audio chunks: Failed to split audio file into chunks''),
             w1))"
proof -
  have "distinct chunks"
    if "split_audio_file en w inp out c mb = (Inr chunks, w')" "\<forall>i. chunk_path out i \<noteq> inp"
  proof -
    from split_result_ordered [OF that] obtain ixs where
      "chunks = map (chunk_path out) ixs" "sorted_wrt (<) ixs" by blast
    then show ?thesis using chunk_paths_distinct sorted_lt_distinct by blast
  qed
  then show ?thesis using split_result_ordered chunked_empty_split by blast
qed

lemma upt_4: "[0..<4] = [0, 1, 2, 3]"
  by code_simp

lemma upt_1: "[0..<1] = [0]"
  by code_simp

lemma upt_3: "[0..<3] = [0, 1, 2]"
  by code_simp

lemmas eval_split =
  split_audio_file_def check_ffmpeg_installed_def os_makedirs_def probe_duration_def
  py_int_def has_content_def os_path_getsize_def path_exists_def log_event_def Let_def
  chunk_path_small temp_audio_path_def

lemma failing_encoder_split:
  "split_audio_file failing_encoder_env downloaded_world temp_audio_path
     ''/tmp/audio_chunks_k3x9'' 300 20
   = (Inr [],
      \<lparr>fs = (fs downloaded_world)(''/tmp/audio_chunks_k3x9'' \<mapsto> Dir),
       events = [Extract 0 ''/tmp/audio_chunks_k3x9/chunk_000.mp3'']\<rparr>)"
  by (simp add: eval_split failing_encoder_env_def demo_env_def downloaded_world_def upt_1
           del: One_nat_def)

lemma demo_split:
  "split_audio_file demo_env downloaded_world temp_audio_path ''/tmp/audio_chunks_k3x9'' 300 20
   = (Inr [''/tmp/audio_chunks_k3x9/chunk_000.mp3'', ''/tmp/audio_chunks_k3x9/chunk_001.mp3'',
           ''/tmp/audio_chunks_k3x9/chunk_002.mp3'', ''/tmp/audio_chunks_k3x9/chunk_003.mp3''],
      \<lparr>fs = (fs downloaded_world)
              (''/tmp/audio_chunks_k3x9'' \<mapsto> Dir,
               ''/tmp/audio_chunks_k3x9/chunk_000.mp3'' \<mapsto> File [1],
               ''/tmp/audio_chunks_k3x9/chunk_001.mp3'' \<mapsto> File [1],
               ''/tmp/audio_chunks_k3x9/chunk_002.mp3'' \<mapsto> File [1],
               ''/tmp/audio_chunks_k3x9/chunk_003.mp3'' \<mapsto> File [1]),
       events = [Extract 0 ''/tmp/audio_chunks_k3x9/chunk_000.mp3'',
                 Extract 300 ''/tmp/audio_chunks_k3x9/chunk_001.mp3'',
                 Extract 600 ''/tmp/audio_chunks_k3x9/chunk_002.mp3'',
                 Extract 900 ''/tmp/audio_chunks_k3x9/chunk_003.mp3'']\<rparr>)"
  by (simp add: eval_split demo_env_def downloaded_world_def upt_4 del: One_nat_def)

lemma probe_failing_split:
  "split_audio_file probe_failing_env downloaded_world temp_audio_path
     ''/tmp/audio_chunks_k3x9'' 300 20
   = (Inr [''/tmp/audio_chunks_k3x9/chunk_000.mp3'', ''/tmp/audio_chunks_k3x9/chunk_001.mp3'',
           ''/tmp/audio_chunks_k3x9/chunk_002.mp3''],
      \<lparr>fs = (fs downloaded_world)
              (''/tmp/audio_chunks_k3x9'' \<mapsto> Dir,
               ''/tmp/audio_chunks_k3x9/chunk_000.mp3'' \<mapsto> File [1],
               ''/tmp/audio_chunks_k3x9/chunk_001.mp3'' \<mapsto> File [1],
               ''/tmp/audio_chunks_k3x9/chunk_002.mp3'' \<mapsto> File [1]),
       events = [Extract 0 ''/tmp/audio_chunks_k3x9/chunk_000.mp3'',
                 Extract 300 ''/tmp/audio_chunks_k3x9/chunk_001.mp3'',
                 Extract 600 ''/tmp/audio_chunks_k3x9/chunk_002.mp3'']\<rparr>)"
  by (simp add: eval_split probe_failing_env_def demo_env_def downloaded_world_def upt_3
        del: One_nat_def)

theorem split_returns_empty_list:
  "fst (split_audio_file failing_encoder_env downloaded_world temp_audio_path
          ''/tmp/audio_chunks_k3x9'' 300 20) = Inr []"
  by (simp add: failing_encoder_split)

theorem split_result_postcondition_witness:
  "fst (split_audio_file demo_env downloaded_world temp_audio_path
          ''/tmp/audio_chunks_k3x9'' 300 20)
     = Inr [''/tmp/audio_chunks_k3x9/chunk_000.mp3'', ''/tmp/audio_chunks_k3x9/chunk_001.mp3'',
            ''/tmp/audio_chunks_k3x9/chunk_002.mp3'', ''/tmp/audio_chunks_k3x9/chunk_003.mp3'']
   \<and> distinct [''/tmp/audio_chunks_k3x9/chunk_000.mp3'', ''/tmp/audio_chunks_k3x9/chunk_001.mp3'',
               ''/tmp/audio_chunks_k3x9/chunk_002.mp3'', ''/tmp/audio_chunks_k3x9/chunk_003.mp3'']
   \<and> has_content demo_env
         (snd (split_audio_file demo_env downloaded_world temp_audio_path
                 ''/tmp/audio_chunks_k3x9'' 300 20))
         ''/tmp/audio_chunks_k3x9/chunk_003.mp3''"
  using split_result_postcondition [of demo_env downloaded_world temp_audio_path "''/tmp/audio_chunks_k3x9''" 300 20
              "[''/tmp/audio_chunks_k3x9/chunk_000.mp3'', ''/tmp/audio_chunks_k3x9/chunk_001.mp3'',
                ''/tmp/audio_chunks_k3x9/chunk_002.mp3'', ''/tmp/audio_chunks_k3x9/chunk_003.mp3'']"
              "snd (split_audio_file demo_env downloaded_world temp_audio_path
                      ''/tmp/audio_chunks_k3x9'' 300 20)"]
        chunk_path_neq_temp_audio
  by (simp add: demo_split)

text \<open>
  Claim C2, as amended. With the encoder available and a positive target \<open>c\<close>,
  a split that returns has requested one extraction per index \<open>0 .. n - 1\<close>, in
  order, chunk \<open>i\<close> starting at \<open>i * c\<close> seconds, where
  \<open>n = max 1 (floor (d / c) + 1)\<close> and \<open>d\<close> is the duration the code works with:
  the probed one, or, when the probe fails, the estimate \<open>e * c\<close> with
  \<open>e = max 1 (int (size_mb / max_size_mb) + 1)\<close>, for which \<open>n = e + 1\<close>. The
  number \<open>floor (d / c) + 1\<close> is the ceiling of \<open>d / c\<close> when \<open>d\<close> is not a multiple
  of \<open>c\<close>, and one more than the ceiling when it is: a duration of 900 seconds
  with a target of 300 requests 4 chunks.
\<close>

theorem split_requests_floor_plus_one:
  assumes "check_ffmpeg_installed en"
      and "0 < c"
      and "split_audio_file en w inp out c mb = (Inr chunks, w')"
  shows "\<exists>w1 d.
           os_makedirs w out = Inr w1 \<and>
           probe_duration en w1 inp c mb = Inr d \<and>
           (case ffmpeg_duration en inp of
              ProbeDuration probed \<Rightarrow> d = probed
            | ProbeRaised e \<Rightarrow>
                (\<exists>file_size.
                   os_path_getsize en w1 inp = Inr file_size \<and>
                   d = real_of_int
                         (max 1 (py_int (real file_size / (1024 * 1024) / real_of_int mb) + 1) * c) \<and>
                   max 1 (\<lfloor>d / real_of_int c\<rfloor> + 1) =
                     max 1 (py_int (real file_size / (1024 * 1024) / real_of_int mb) + 1) + 1)) \<and>
           extract_calls (events w') =
             extract_calls (events w) @
             map (\<lambda>i. (int i * c, chunk_path out i))
               [0..<nat (max 1 (\<lfloor>d / real_of_int c\<rfloor> + 1))] \<and>
           \<lfloor>d / real_of_int c\<rfloor> + 1 =
             (if of_int \<lfloor>d / real_of_int c\<rfloor> = d / real_of_int c
              then \<lceil>d / real_of_int c\<rceil> + 1 else \<lceil>d / real_of_int c\<rceil>)"
proof -
  from split_ffmpeg_unfold [OF assms(1,3)] obtain w1 d where
    mk: "os_makedirs w out = Inr w1"
    and pr: "probe_duration en w1 inp c mb = Inr d"
    and loop: "split_ffmpeg_loop en inp out c (max 1 (\<lfloor>d / real_of_int c\<rfloor> + 1))
             [0..<nat (max 1 (\<lfloor>d / real_of_int c\<rfloor> + 1))] w1 [] = (Inr chunks, w')"
    by blast
  have ev1: "events w1 = events w" using os_makedirs_Inr [OF mk] by simp
  have calls: "extract_calls (events w') =
           extract_calls (events w) @
           map (\<lambda>i. (int i * c, chunk_path out i))
             [0..<nat (max 1 (\<lfloor>d / real_of_int c\<rfloor> + 1))]"
    using split_ffmpeg_loop_result [OF loop] ev1 by simp
  have ident: "\<lfloor>d / real_of_int c\<rfloor> + 1 =
             (if of_int \<lfloor>d / real_of_int c\<rfloor> = d / real_of_int c
              then \<lceil>d / real_of_int c\<rceil> + 1 else \<lceil>d / real_of_int c\<rceil>)"
    by (metis ceiling_altdef)
  have src: "case ffmpeg_duration en inp of
              ProbeDuration probed \<Rightarrow> d = probed
            | ProbeRaised e \<Rightarrow>
                (\<exists>file_size.
                   os_path_getsize en w1 inp = Inr file_size \<and>
                   d = real_of_int
                         (max 1 (py_int (real file_size / (1024 * 1024) / real_of_int mb) + 1) * c) \<and>
                   max 1 (\<lfloor>d / real_of_int c\<rfloor> + 1) =
                     max 1 (py_int (real file_size / (1024 * 1024) / real_of_int mb) + 1) + 1)"
  proof (cases "ffmpeg_duration en inp")
    case (ProbeDuration probed)
    then show ?thesis using pr by (simp add: probe_duration_def)
  next
    case (ProbeRaised e)
    then obtain file_size where
      sz: "os_path_getsize en w1 inp = Inr file_size"
      and d: "d = real_of_int
                    (max 1 (py_int (real file_size / (1024 * 1024) / real_of_int mb) + 1) * c)"
      using pr
      by (cases e) (auto simp: probe_duration_def Let_def split: sum.splits if_splits)
    have "max 1 (\<lfloor>d / real_of_int c\<rfloor> + 1) =
            max 1 (py_int (real file_size / (1024 * 1024) / real_of_int mb) + 1) + 1"
      unfolding d by (rule estimate_count [OF assms(2)]) simp
    then show ?thesis using ProbeRaised sz d by simp
  qed
  show ?thesis using mk pr src calls ident by blast
qed

theorem split_requests_floor_plus_one_witness:
  "extract_calls (events (snd (split_audio_file demo_env downloaded_world temp_audio_path
                                 ''/tmp/audio_chunks_k3x9'' 300 20)))
     = [(0, ''/tmp/audio_chunks_k3x9/chunk_000.mp3''),
        (300, ''/tmp/audio_chunks_k3x9/chunk_001.mp3''),
        (600, ''/tmp/audio_chunks_k3x9/chunk_002.mp3''),
        (900, ''/tmp/audio_chunks_k3x9/chunk_003.mp3'')]
   \<and> extract_calls (events (snd (split_audio_file probe_failing_env downloaded_world
                                   temp_audio_path ''/tmp/audio_chunks_k3x9'' 300 20)))
     = [(0, ''/tmp/audio_chunks_k3x9/chunk_000.mp3''),
        (300, ''/tmp/audio_chunks_k3x9/chunk_001.mp3''),
        (600, ''/tmp/audio_chunks_k3x9/chunk_002.mp3'')]"
proof -
  have inst: "check_ffmpeg_installed demo_env" "check_ffmpeg_installed probe_failing_env"
    by (simp_all add: check_ffmpeg_installed_def probe_failing_env_def demo_env_def)
  have pos: "0 < (300::int)" by simp
  have ev0: "extract_calls (events downloaded_world) = []" by (simp add: downloaded_world_def)
  have probed: "ffmpeg_duration demo_env temp_audio_path = ProbeDuration 900"
    by (simp add: demo_env_def)
  have raised: "ffmpeg_duration probe_failing_env temp_audio_path
                  = ProbeRaised (SubprocessError ''exit status 1'')"
    by (simp add: probe_failing_env_def demo_env_def)
  have size: "os_path_getsize probe_failing_env w1 temp_audio_path = Inr n \<Longrightarrow>
              os_makedirs downloaded_world ''/tmp/audio_chunks_k3x9'' = Inr w1 \<Longrightarrow> n = 31457280"
    for w1 n
    by (auto simp: os_makedirs_def os_path_getsize_def downloaded_world_def temp_audio_path_def
             split: option.splits node.splits)
  have run1: "split_audio_file demo_env downloaded_world temp_audio_path
                ''/tmp/audio_chunks_k3x9'' 300 20
              = (Inr [''/tmp/audio_chunks_k3x9/chunk_000.mp3'',
                      ''/tmp/audio_chunks_k3x9/chunk_001.mp3'',
                      ''/tmp/audio_chunks_k3x9/chunk_002.mp3'',
                      ''/tmp/audio_chunks_k3x9/chunk_003.mp3''],
                 snd (split_audio_file demo_env downloaded_world temp_audio_path
                        ''/tmp/audio_chunks_k3x9'' 300 20))"
    by (simp add: demo_split)
  have run2: "split_audio_file probe_failing_env downloaded_world temp_audio_path
                ''/tmp/audio_chunks_k3x9'' 300 20
              = (Inr [''/tmp/audio_chunks_k3x9/chunk_000.mp3'',
                      ''/tmp/audio_chunks_k3x9/chunk_001.mp3'',
                      ''/tmp/audio_chunks_k3x9/chunk_002.mp3''],
                 snd (split_audio_file probe_failing_env downloaded_world temp_audio_path
                        ''/tmp/audio_chunks_k3x9'' 300 20))"
    by (simp add: probe_failing_split)
  have four: "map (\<lambda>i. (int i * 300, chunk_path ''/tmp/audio_chunks_k3x9'' i))
                [0..<nat (max 1 (\<lfloor>900 / real_of_int 300\<rfloor> + 1))]
              = [(0, ''/tmp/audio_chunks_k3x9/chunk_000.mp3''),
                 (300, ''/tmp/audio_chunks_k3x9/chunk_001.mp3''),
                 (600, ''/tmp/audio_chunks_k3x9/chunk_002.mp3''),
                 (900, ''/tmp/audio_chunks_k3x9/chunk_003.mp3'')]"
    by (simp add: upt_4 chunk_path_small del: One_nat_def)
  have three: "map (\<lambda>i. (int i * 300, chunk_path ''/tmp/audio_chunks_k3x9'' i))
                 [0..<nat (max 1 (py_int (real 31457280 / (1024 * 1024) / real_of_int 20) + 1) + 1)]
               = [(0, ''/tmp/audio_chunks_k3x9/chunk_000.mp3''),
                  (300, ''/tmp/audio_chunks_k3x9/chunk_001.mp3''),
                  (600, ''/tmp/audio_chunks_k3x9/chunk_002.mp3'')]"
    by (simp add: py_int_def upt_3 chunk_path_small del: One_nat_def)
  have a: "extract_calls (events (snd (split_audio_file demo_env downloaded_world temp_audio_path
                                 ''/tmp/audio_chunks_k3x9'' 300 20)))
     = map (\<lambda>i. (int i * 300, chunk_path ''/tmp/audio_chunks_k3x9'' i))
         [0..<nat (max 1 (\<lfloor>900 / real_of_int 300\<rfloor> + 1))]"
    using split_requests_floor_plus_one [OF inst(1) pos run1]
    apply (elim exE conjE)
    apply (simp only: probed probe_result.case ev0 append_Nil)
    done
  have b: "extract_calls (events (snd (split_audio_file probe_failing_env downloaded_world
                                   temp_audio_path ''/tmp/audio_chunks_k3x9'' 300 20)))
     = map (\<lambda>i. (int i * 300, chunk_path ''/tmp/audio_chunks_k3x9'' i))
         [0..<nat (max 1 (py_int (real 31457280 / (1024 * 1024) / real_of_int 20) + 1) + 1)]"
    using split_requests_floor_plus_one [OF inst(2) pos run2]
    apply (elim exE conjE)
    apply (simp only: raised probe_result.case ev0 append_Nil)
    apply (elim exE conjE)
    subgoal for w1 d file_size
      using size [of w1 file_size] by (simp only:)
    done
  show ?thesis using a b unfolding four three by (rule conjI)
qed

theorem split_900_300_requests_four:
  "ffmpeg_duration demo_env temp_audio_path = ProbeDuration 900
   \<and> length (extract_calls (events (snd (split_audio_file demo_env downloaded_world
               temp_audio_path ''/tmp/audio_chunks_k3x9'' 300 20)))) = 4
   \<and> nat (max 1 \<lceil>(900::real) / real_of_int 300\<rceil>) = 3"
proof -
  have a: "ffmpeg_duration demo_env temp_audio_path = ProbeDuration 900"
    by (simp add: demo_env_def)
  have b: "length (extract_calls (events (snd (split_audio_file demo_env downloaded_world
               temp_audio_path ''/tmp/audio_chunks_k3x9'' 300 20)))) = 4"
    by (simp add: demo_split)
  have c: "nat (max 1 \<lceil>(900::real) / real_of_int 300\<rceil>) = 3"
    by simp
  show ?thesis by (intro conjI a b c)
qed

subsection \<open>Frames of the split\<close>

lemma split_python_loop_frame:
  "split_python_loop inp out cs ixs pos w acc = (r, w') \<Longrightarrow>
   events w' = events w \<and> (\<forall>p. (fs w' p = Some Dir) = (fs w p = Some Dir))"
proof (induction ixs arbitrary: pos w acc)
  case Nil
  then show ?case by simp
next
  case (Cons i rest)
  show ?case
  proof (cases "write_file w (chunk_path out i) (read_at w inp pos cs)")
    case (Inl e)
    then show ?thesis using Cons.prems by (simp add: Let_def)
  next
    case (Inr w1)
    then have rec: "split_python_loop inp out cs rest (pos + length (read_at w inp pos cs)) w1
                 (acc @ [chunk_path out i]) = (r, w')"
      using Cons.prems by (simp add: Let_def)
    from write_file_Inr [OF Inr] Cons.IH [OF rec] show ?thesis by auto
  qed
qed

lemma split_audio_file_frame:
  assumes "split_audio_file en w inp out c mb = (r, w')"
  shows "mkdtemp_calls (events w') = mkdtemp_calls (events w) \<and>
         transcribe_calls (events w') = transcribe_calls (events w) \<and>
         (\<forall>p. fs w' p = Some Dir \<longrightarrow> fs w p = Some Dir \<or> p = out) \<and>
         (fs w out = Some Dir \<longrightarrow> fs w' out = Some Dir)"
proof (cases "os_makedirs w out")
  case (Inl e)
  then have "w' = w" using assms
    by (auto simp: split_audio_file_def split_audio_file_python_def split: if_splits)
  then show ?thesis by simp
next
  case (Inr w1)
  note mk = os_makedirs_Inr [OF Inr]
  have base: "mkdtemp_calls (events w1) = mkdtemp_calls (events w)"
      "transcribe_calls (events w1) = transcribe_calls (events w)"
      "\<forall>p. fs w1 p = Some Dir \<longrightarrow> fs w p = Some Dir \<or> p = out"
      "fs w1 out = Some Dir"
    using mk by auto
  have "mkdtemp_calls (events w') = mkdtemp_calls (events w1) \<and>
        transcribe_calls (events w') = transcribe_calls (events w1) \<and>
        (\<forall>p. fs w' p = Some Dir \<longrightarrow> fs w1 p = Some Dir) \<and>
        fs w' out = Some Dir"
  proof (cases "check_ffmpeg_installed en")
    case False
    have "w' = w1 \<or> (\<exists>cs ixs acc. split_python_loop inp out cs ixs 0 w1 acc = (r, w'))"
      using assms False Inr
      unfolding split_audio_file_def split_audio_file_python_def Let_def
      by (auto split: sum.splits if_splits option.splits node.splits)
    then show ?thesis
    proof
      assume "w' = w1"
      then show ?thesis using base by simp
    next
      assume "\<exists>cs ixs acc. split_python_loop inp out cs ixs 0 w1 acc = (r, w')"
      then obtain cs ixs acc where "split_python_loop inp out cs ixs 0 w1 acc = (r, w')" by blast
      from split_python_loop_frame [OF this] base show ?thesis by simp
    qed
  next
    case True
    have "w' = w1 \<or> (\<exists>n m. split_ffmpeg_loop en inp out c n [0..<m] w1 [] = (r, w'))"
      using assms True Inr
      unfolding split_audio_file_def Let_def
      by (auto split: sum.splits if_splits)
    then show ?thesis
    proof
      assume "w' = w1"
      then show ?thesis using base by simp
    next
      assume "\<exists>n m. split_ffmpeg_loop en inp out c n [0..<m] w1 [] = (r, w')"
      then obtain n m where loop: "split_ffmpeg_loop en inp out c n [0..<m] w1 [] = (r, w')"
        by blast
      have res: "(\<forall>p. (\<forall>i\<in>set [0..<m]. p \<noteq> chunk_path out i) \<longrightarrow> fs w' p = fs w1 p) \<and>
         (\<forall>p. fs w' p = Some Dir \<longrightarrow> fs w1 p = Some Dir) \<and>
         mkdtemp_calls (events w') = mkdtemp_calls (events w1) \<and>
         transcribe_calls (events w') = transcribe_calls (events w1)"
        using split_ffmpeg_loop_result [OF loop] by simp
      have "\<forall>i\<in>set [0..<m]. out \<noteq> chunk_path out i"
        using chunk_path_neq_dir [of out] by metis
      then have "fs w' out = fs w1 out" using res by blast
      then show ?thesis using res base by simp
    qed
  qed
  then show ?thesis using base by auto
qed

subsection \<open>Transcription\<close>

lemma transcribe_audio_chunk_snd:
  "snd (transcribe_audio_chunk en w p) = log_event (Transcribe p) w"
  by (simp add: transcribe_audio_chunk_def Let_def split: sum.splits)

lemma transcribe_audio_chunk_fst_cong:
  "fs w = fs v \<Longrightarrow> fst (transcribe_audio_chunk en w p) = fst (transcribe_audio_chunk en v p)"
  by (simp add: transcribe_audio_chunk_def Let_def new_api_def legacy_api_def split: sum.splits)

lemma transcribe_chunks_result:
  assumes "transcribe_chunks en cs w acc = (r, w')"
  shows "fs w' = fs w \<and> mkdtemp_calls (events w') = mkdtemp_calls (events w) \<and>
         (case r of
            Inr ts \<Rightarrow>
              transcribe_calls (events w') = transcribe_calls (events w) @ cs \<and>
              (\<exists>segs. ts = acc @ segs \<and>
                  list_all2 (\<lambda>c s. fst (transcribe_audio_chunk en w c) = Inr s) cs segs)
          | Inl e \<Rightarrow>
              \<exists>k < length cs.
                transcribe_calls (events w') = transcribe_calls (events w) @ take (Suc k) cs)"
  using assms
proof (induction cs arbitrary: w acc)
  case Nil
  then show ?case by auto
next
  case (Cons c rest)
  obtain r1 w1 where t: "transcribe_audio_chunk en w c = (r1, w1)"
    by (cases "transcribe_audio_chunk en w c") auto
  then have w1: "w1 = log_event (Transcribe c) w"
    using transcribe_audio_chunk_snd [of en w c] by simp
  show ?case
  proof (cases r1)
    case (Inl e)
    then have "r = Inl e" "w' = w1" using Cons.prems t by auto
    then show ?thesis using w1 by auto
  next
    case (Inr s)
    then have rec: "transcribe_chunks en rest w1 (acc @ [s]) = (r, w')"
      using Cons.prems t by simp
    note IH = Cons.IH [OF rec]
    have fsw: "fs w1 = fs w" using w1 by simp
    have cong: "fst (transcribe_audio_chunk en w1 x) = fst (transcribe_audio_chunk en w x)" for x
      using fsw by (rule transcribe_audio_chunk_fst_cong)
    show ?thesis
    proof (cases r)
      case (Inl e)
      then obtain k where "k < length rest"
        "transcribe_calls (events w') = transcribe_calls (events w1) @ take (Suc k) rest"
        using IH by auto
      then have "Suc k < length (c # rest)"
        "transcribe_calls (events w') = transcribe_calls (events w) @ take (Suc (Suc k)) (c # rest)"
        using w1 by simp_all
      then show ?thesis using IH Inl w1 by (auto simp del: take_Suc_Cons)
    next
      case (Inr ts)
      then obtain segs where segs: "ts = (acc @ [s]) @ segs"
        "list_all2 (\<lambda>c s. fst (transcribe_audio_chunk en w1 c) = Inr s) rest segs"
        and calls: "transcribe_calls (events w') = transcribe_calls (events w1) @ rest"
        using IH by auto
      have "list_all2 (\<lambda>c s. fst (transcribe_audio_chunk en w c) = Inr s) (c # rest) (s # segs)"
        using segs(2) t \<open>r1 = Inr s\<close> by (simp add: cong)
      moreover have "ts = acc @ (s # segs)" using segs(1) by simp
      ultimately have "\<exists>segs'. ts = acc @ segs' \<and>
          list_all2 (\<lambda>c s. fst (transcribe_audio_chunk en w c) = Inr s) (c # rest) segs'"
        by blast
      then show ?thesis using IH Inr calls w1 by simp
    qed
  qed
qed

lemma join_str_explicit:
  "xs \<noteq> [] \<Longrightarrow> join_str sep xs = hd xs @ concat (map (\<lambda>s. sep @ s) (tl xs))"
  by (induction sep xs rule: join_str.induct) simp_all

subsection \<open>Deletions\<close>

lemma remove_if_exists_cases:
  assumes "fs w p \<noteq> Some Dir"
  shows "(\<exists>e. remove_if_exists en w p = Inl e \<and> deletion_fails en p) \<or>
         (\<exists>w'. remove_if_exists en w p = Inr w' \<and> fs w' = (fs w)(p := None) \<and>
               events w' = events w)"
proof (cases "fs w p")
  case None
  then have "(fs w)(p := None) = fs w" by auto
  then show ?thesis using None by (simp add: remove_if_exists_def path_exists_def)
next
  case (Some nd)
  then obtain b where "fs w p = Some (File b)" using assms by (cases nd) auto
  then show ?thesis by (simp add: remove_if_exists_def path_exists_def os_remove_def)
qed

lemma remove_if_exists_file:
  assumes "fs w p \<noteq> Some Dir" and "\<not> deletion_fails en p"
  shows "\<exists>w'. remove_if_exists en w p = Inr w' \<and> fs w' = (fs w)(p := None) \<and>
              events w' = events w"
  using remove_if_exists_cases [OF assms(1), of en] assms(2) by auto

lemma rmtree_if_exists_cases:
  assumes "fs w d = Some Dir" and "d \<noteq> []"
  shows "(\<exists>e. rmtree_if_exists en w d = Inl e \<and> deletion_fails en d) \<or>
         (\<exists>w'. rmtree_if_exists en w d = Inr w' \<and> fs w' d = None \<and> events w' = events w \<and>
               (\<forall>p. fs w p = None \<longrightarrow> fs w' p = None))"
  using assms by (simp add: rmtree_if_exists_def path_exists_def shutil_rmtree_def)

lemma os_remove_events: "os_remove en w p = Inr w' \<Longrightarrow> events w' = events w"
  by (auto simp: os_remove_def split: option.splits node.splits if_splits)

lemma shutil_rmtree_events: "shutil_rmtree en w p = Inr w' \<Longrightarrow> events w' = events w"
  by (auto simp: shutil_rmtree_def split: option.splits node.splits if_splits)

lemma cleanup_events: "events (cleanup en w td) = events w"
proof -
  have rm: "events (case os_remove en v p of Inl e \<Rightarrow> v | Inr w' \<Rightarrow> w') = events v" for v p
    by (cases "os_remove en v p") (auto dest: os_remove_events)
  have rt: "events (case shutil_rmtree en v d of Inl e \<Rightarrow> v | Inr w' \<Rightarrow> w') = events v" for v d
    by (cases "shutil_rmtree en v d") (auto dest: shutil_rmtree_events)
  define w1 where "w1 = (if path_exists w temp_audio_path
                then (case os_remove en w temp_audio_path of Inl e \<Rightarrow> w | Inr w' \<Rightarrow> w')
                else w)"
  have w1: "events w1 = events w" unfolding w1_def using rm by simp
  have c: "cleanup en w td =
             (case td of None \<Rightarrow> w1
              | Some d \<Rightarrow> if d \<noteq> [] \<and> path_exists w1 d
                          then (case shutil_rmtree en w1 d of Inl e \<Rightarrow> w1 | Inr w' \<Rightarrow> w')
                          else w1)"
    unfolding w1_def cleanup_def Let_def ..
  have "events (cleanup en w td) = events w1"
    unfolding c using rt by (cases td) simp_all
  then show ?thesis using w1 by simp
qed

lemma cleanup_result:
  assumes "fs w temp_audio_path \<noteq> Some Dir"
      and "td = None \<or> (\<exists>d. td = Some d \<and> (fs w d = Some Dir \<or> fs w d = None))"
      and "\<forall>p. \<not> deletion_fails en p"
  shows "fs (cleanup en w td) temp_audio_path = None \<and>
         (\<forall>d. td = Some d \<and> d \<noteq> [] \<longrightarrow> fs (cleanup en w td) d = None)"
proof -
  define w1 where "w1 = (if path_exists w temp_audio_path
                then (case os_remove en w temp_audio_path of Inl e \<Rightarrow> w | Inr w' \<Rightarrow> w')
                else w)"
  have w1: "fs w1 = (fs w)(temp_audio_path := None)"
  proof -
    from remove_if_exists_file [OF assms(1), of en] assms(3) obtain v where
      v: "remove_if_exists en w temp_audio_path = Inr v" "fs v = (fs w)(temp_audio_path := None)"
      by blast
    have "w1 = v" using v(1) by (auto simp: w1_def remove_if_exists_def split: if_splits)
    then show "fs w1 = (fs w)(temp_audio_path := None)" using v by simp
  qed
  show ?thesis
  proof (cases td)
    case None
    then have "cleanup en w td = w1" by (simp add: cleanup_def w1_def)
    then show ?thesis using w1 None by simp
  next
    case (Some d)
    have c: "cleanup en w td =
             (if d \<noteq> [] \<and> path_exists w1 d
              then (case shutil_rmtree en w1 d of Inl e \<Rightarrow> w1 | Inr w' \<Rightarrow> w')
              else w1)"
      unfolding w1_def cleanup_def Let_def using Some by simp
    have dstate: "fs w1 d = Some Dir \<or> fs w1 d = None"
      using assms(2) Some w1 by auto
    show ?thesis
    proof (cases "d \<noteq> [] \<and> fs w1 d = Some Dir")
      case True
      then have "cleanup en w td =
                   w1\<lparr>fs := (\<lambda>p. if p = d \<or> under_dir d p then None else fs w1 p)\<rparr>"
        using c assms(3) by (simp add: path_exists_def shutil_rmtree_def)
      then show ?thesis using w1 Some by simp
    next
      case False
      then have "cleanup en w td = w1" using c dstate by (auto simp: path_exists_def)
      then show ?thesis using w1 Some False dstate by auto
    qed
  qed
qed

subsection \<open>The chunked branch\<close>

lemma mkdtemp_names_Inr:
  "mkdtemp_names w dir pre names = Inr (d, w') \<Longrightarrow>
   fs w d = None \<and> fs w' = (fs w)(d \<mapsto> Dir) \<and> events w' = events w @ [Mkdtemp d] \<and>
   (\<exists>name. d = os_path_join dir (pre @ name))"
  by (induction names) (auto simp: Let_def path_exists_def split: if_splits)

lemma os_path_join_nonempty: "b \<noteq> [] \<Longrightarrow> os_path_join a b \<noteq> []"
  by (auto simp: os_path_join_def)

lemma tempfile_mkdtemp_Inr:
  assumes "tempfile_mkdtemp en w pre = Inr (d, w')" and "pre \<noteq> []"
  shows "fs w d = None \<and> fs w' = (fs w)(d \<mapsto> Dir) \<and> events w' = events w @ [Mkdtemp d] \<and> d \<noteq> []"
proof -
  from mkdtemp_names_Inr [OF assms(1) [unfolded tempfile_mkdtemp_def]]
  obtain name where a: "fs w d = None" "fs w' = (fs w)(d \<mapsto> Dir)"
    "events w' = events w @ [Mkdtemp d]" "d = os_path_join (gettempdir en) (pre @ name)"
    by blast
  have "d \<noteq> []" using a(4) assms(2) os_path_join_nonempty [of "pre @ name"] by simp
  then show ?thesis using a by simp
qed

lemma tempfile_mkdtemp_Inl: "tempfile_mkdtemp en w pre = Inl e \<Longrightarrow> is_IOError e"
proof -
  have "mkdtemp_names w dir pre names = Inl e \<Longrightarrow> is_IOError e" for dir names
    by (induction names) (auto simp: Let_def split: if_splits)
  then show "tempfile_mkdtemp en w pre = Inl e \<Longrightarrow> is_IOError e"
    by (simp add: tempfile_mkdtemp_def)
qed

lemma chunked_result:
  assumes run: "chunked en w d = (r, w')"
      and dir: "fs w d = Some Dir"
      and tap: "fs w temp_audio_path \<noteq> Some Dir"
      and dne: "d \<noteq> []"
  shows "mkdtemp_calls (events w') = mkdtemp_calls (events w) \<and>
         fs w' temp_audio_path \<noteq> Some Dir \<and>
         (\<exists>ps. transcribe_calls (events w') = transcribe_calls (events w) @ ps
               \<and> temp_audio_path \<notin> set ps) \<and>
         (case r of
            Inr t \<Rightarrow>
              fs w' temp_audio_path = None \<and> fs w' d = None \<and>
              (\<exists>chunks w1 segs.
                  split_audio_file en w temp_audio_path d 300 20 = (Inr chunks, w1) \<and>
                  chunks \<noteq> [] \<and>
                  list_all2 (\<lambda>c s. fst (transcribe_audio_chunk en w1 c) = Inr s) chunks segs \<and>
                  t = join_str '' '' segs \<and>
                  transcribe_calls (events w') = transcribe_calls (events w) @ chunks)
          | Inl e \<Rightarrow> fs w' d = Some Dir \<and> (\<exists>m. e = PyException m))"
proof -
  obtain r1 w1 where sp: "split_audio_file en w temp_audio_path d 300 20 = (r1, w1)"
    by (cases "split_audio_file en w temp_audio_path d 300 20") auto
  note fr = split_audio_file_frame [OF sp]
  have dne_tap: "d \<noteq> temp_audio_path" using dir tap by auto
  have dir1: "fs w1 d = Some Dir" using fr dir by simp
  have tap1: "fs w1 temp_audio_path \<noteq> Some Dir" using fr tap dne_tap by blast
  have mk1: "mkdtemp_calls (events w1) = mkdtemp_calls (events w)"
    and tc1: "transcribe_calls (events w1) = transcribe_calls (events w)"
    using fr by simp_all
  show ?thesis
  proof (cases r1)
    case (Inl e)
    then have "r = Inl (PyException (''Error processing audio chunks: '' @ str_exn e))" "w' = w1"
      using run sp by (simp_all add: chunked_def chunked_try_def)
    then show ?thesis using dir1 tap1 mk1 tc1 by simp
  next
    case (Inr chunks)
    show ?thesis
    proof (cases "chunks = []")
      case True
      then have "r = Inl (PyException (''Error processing audio chunks: ''
                    @ ''Failed to split audio file into chunks''))" "w' = w1"
        using run sp Inr by (simp_all add: chunked_def chunked_try_def)
      then show ?thesis using dir1 tap1 mk1 tc1 by simp
    next
      case False
      have sp': "split_audio_file en w temp_audio_path d 300 20 = (Inr chunks, w1)"
        using sp Inr by simp
      have "\<exists>ixs. chunks = map (chunk_path d) ixs"
        using split_result_ordered [OF sp'] chunk_path_neq_temp_audio by blast
      then have notin: "temp_audio_path \<notin> set chunks"
        using chunk_path_neq_temp_audio by (metis (no_types) imageE list.set_map)
      obtain r2 w2 where tr: "transcribe_chunks en chunks w1 [] = (r2, w2)"
        by (cases "transcribe_chunks en chunks w1 []") auto
      note trr = transcribe_chunks_result [OF tr]
      have fs2: "fs w2 = fs w1" and mk2: "mkdtemp_calls (events w2) = mkdtemp_calls (events w)"
        using trr mk1 by simp_all
      show ?thesis
      proof (cases r2)
        case (Inl e)
        then have res: "r = Inl (PyException (''Error processing audio chunks: '' @ str_exn e))"
          "w' = w2"
          using run sp' False tr by (simp_all add: chunked_def chunked_try_def)
        from Inl trr obtain k where
          "transcribe_calls (events w2) = transcribe_calls (events w1) @ take (Suc k) chunks"
          by auto
        moreover have "temp_audio_path \<notin> set (take (Suc k) chunks)"
          using notin by (meson in_set_takeD)
        ultimately have "\<exists>ps. transcribe_calls (events w2) = transcribe_calls (events w) @ ps
               \<and> temp_audio_path \<notin> set ps"
          using tc1 by auto
        then show ?thesis using res dir1 tap1 mk2 fs2 by simp
      next
        case (Inr ts)
        from Inr trr obtain segs where
          calls: "transcribe_calls (events w2) = transcribe_calls (events w1) @ chunks"
          and ts: "ts = segs"
          and segs: "list_all2 (\<lambda>c s. fst (transcribe_audio_chunk en w1 c) = Inr s) chunks segs"
          by auto
        have tap2: "fs w2 temp_audio_path \<noteq> Some Dir" using tap1 fs2 by simp
        have calls2: "\<exists>ps. transcribe_calls (events w2) = transcribe_calls (events w) @ ps
               \<and> temp_audio_path \<notin> set ps"
          using calls tc1 notin by auto
        from remove_if_exists_cases [OF tap2, of en] show ?thesis
        proof
          assume "\<exists>e. remove_if_exists en w2 temp_audio_path = Inl e
                    \<and> deletion_fails en temp_audio_path"
          then obtain e where "remove_if_exists en w2 temp_audio_path = Inl e" by blast
          then have res: "r = Inl (PyException (''Error processing audio chunks: '' @ str_exn e))"
            "w' = w2"
            using run sp' False tr Inr
            by (simp_all add: chunked_def chunked_try_def Let_def)
          show ?thesis using res dir1 tap2 mk2 fs2 calls2 by simp
        next
          assume "\<exists>w3. remove_if_exists en w2 temp_audio_path = Inr w3 \<and>
                    fs w3 = (fs w2)(temp_audio_path := None) \<and> events w3 = events w2"
          then obtain w3 where
            w3: "remove_if_exists en w2 temp_audio_path = Inr w3"
               "fs w3 = (fs w2)(temp_audio_path := None)" "events w3 = events w2"
            by blast
          have dir3: "fs w3 d = Some Dir" using w3 fs2 dir1 dne_tap by simp
          have tap3: "fs w3 temp_audio_path = None" using w3 by simp
          from rmtree_if_exists_cases [OF dir3 dne, of en] show ?thesis
          proof
            assume "\<exists>e. rmtree_if_exists en w3 d = Inl e \<and> deletion_fails en d"
            then obtain e where "rmtree_if_exists en w3 d = Inl e" by blast
            then have res:
              "r = Inl (PyException (''Error processing audio chunks: '' @ str_exn e))" "w' = w3"
              using run sp' False tr Inr w3
              by (simp_all add: chunked_def chunked_try_def Let_def)
            show ?thesis using res dir3 tap3 mk2 w3 calls2 by simp
          next
            assume "\<exists>w4. rmtree_if_exists en w3 d = Inr w4 \<and> fs w4 d = None \<and>
                      events w4 = events w3 \<and> (\<forall>p. fs w3 p = None \<longrightarrow> fs w4 p = None)"
            then obtain w4 where
              w4: "rmtree_if_exists en w3 d = Inr w4" "fs w4 d = None" "events w4 = events w3"
                  "\<forall>p. fs w3 p = None \<longrightarrow> fs w4 p = None"
              by blast
            have res: "r = Inr (join_str '' '' segs)" "w' = w4"
              using run sp' False tr Inr ts w3 w4
              by (simp_all add: chunked_def chunked_try_def Let_def)
            have tap4: "fs w4 temp_audio_path = None" using tap3 w4 by simp
            have calls4: "transcribe_calls (events w4) = transcribe_calls (events w) @ chunks"
              using calls tc1 w3 w4 by simp
            have mk4: "mkdtemp_calls (events w4) = mkdtemp_calls (events w)"
              using mk2 w3 w4 by simp
            have "\<exists>chunks w1 segs'.
                  split_audio_file en w temp_audio_path d 300 20 = (Inr chunks, w1) \<and>
                  chunks \<noteq> [] \<and>
                  list_all2 (\<lambda>c s. fst (transcribe_audio_chunk en w1 c) = Inr s) chunks segs' \<and>
                  join_str '' '' segs = join_str '' '' segs' \<and>
                  transcribe_calls (events w4) = transcribe_calls (events w) @ chunks"
              using sp' False segs calls4 by blast
            moreover have "\<exists>ps. transcribe_calls (events w4) = transcribe_calls (events w) @ ps
               \<and> temp_audio_path \<notin> set ps"
              using calls4 notin by blast
            ultimately show ?thesis using res tap4 w4(2) mk4 by simp
          qed
        qed
      qed
    qed
  qed
qed

subsection \<open>The request, branch by branch\<close>

lemma save_stream_result:
  assumes "fs w temp_audio_path \<noteq> Some Dir"
  shows "save_stream w temp_audio_path received failure =
           ((case failure of None \<Rightarrow> Inr () | Some e \<Rightarrow> Inl e), with_download w received)"
proof -
  have "write_file w temp_audio_path received = Inr (with_download w received)"
    using assms by (auto simp: write_file_def with_download_def split: option.splits node.splits)
  then show ?thesis by (simp add: save_stream_def split: option.splits)
qed

lemma with_download_simps [simp]:
  "fs (with_download w b) temp_audio_path = Some (File b)"
  "events (with_download w b) = events w"
  "p \<noteq> temp_audio_path \<Longrightarrow> fs (with_download w b) p = fs w p"
  by (simp_all add: with_download_def)

lemma direct_branch:
  "fs w temp_audio_path = Some (File b) \<Longrightarrow>
   (case transcribe_audio_chunk en w temp_audio_path of
      (Inl e, w2) \<Rightarrow> (Inl e, w2, None)
    | (Inr transcript_text, w2) \<Rightarrow>
        (case remove_if_exists en w2 temp_audio_path of
           Inl e \<Rightarrow> (Inl e, w2, None)
         | Inr w3 \<Rightarrow> (Inr transcript_text, w3, None)))
   = (case fst (transcribe_audio_chunk en w temp_audio_path) of
        Inl e \<Rightarrow> (Inl e, log_event (Transcribe temp_audio_path) w, None)
      | Inr t \<Rightarrow>
          if deletion_fails en temp_audio_path
          then (Inl (IOError ''Permission denied''),
                log_event (Transcribe temp_audio_path) w, None)
          else
            (Inr t,
             (log_event (Transcribe temp_audio_path) w)
               \<lparr>fs := (fs w)(temp_audio_path := None)\<rparr>, None))"
proof -
  obtain r w2 where t: "transcribe_audio_chunk en w temp_audio_path = (r, w2)"
    by (cases "transcribe_audio_chunk en w temp_audio_path") auto
  then have w2: "w2 = log_event (Transcribe temp_audio_path) w"
    using transcribe_audio_chunk_snd [of en w temp_audio_path] by simp
  assume "fs w temp_audio_path = Some (File b)"
  then have "remove_if_exists en w2 temp_audio_path =
               (if deletion_fails en temp_audio_path then Inl (IOError ''Permission denied'')
                else Inr (w2\<lparr>fs := (fs w)(temp_audio_path := None)\<rparr>))"
    using w2 by (simp add: remove_if_exists_def path_exists_def os_remove_def)
  then show ?thesis using t w2 by (cases r) simp_all
qed

lemma save_and_transcribe_unfold:
  assumes "fs w temp_audio_path \<noteq> Some Dir"
  shows "save_and_transcribe en w received failure =
     (case failure of
        Some e \<Rightarrow> (Inl e, with_download w received, None)
      | None \<Rightarrow>
          if received = []
          then (Inl (HTTPException 500 ''Downloaded audio file is empty''),
                with_download w received, None)
          else if length received > 25 * 1024 * 1024 then
            (case tempfile_mkdtemp en (with_download w received) ''audio_chunks_'' of
               Inl e \<Rightarrow> (Inl e, with_download w received, None)
             | Inr (temp_dir, w2) \<Rightarrow>
                 (case chunked en w2 temp_dir of (r, w3) \<Rightarrow> (r, w3, Some temp_dir)))
          else
            (case fst (transcribe_audio_chunk en (with_download w received) temp_audio_path) of
               Inl e \<Rightarrow>
                 (Inl e, log_event (Transcribe temp_audio_path) (with_download w received), None)
             | Inr t \<Rightarrow>
                 if deletion_fails en temp_audio_path
                 then (Inl (IOError ''Permission denied''),
                       log_event (Transcribe temp_audio_path) (with_download w received), None)
                 else
                   (Inr t,
                    (log_event (Transcribe temp_audio_path) (with_download w received))
                      \<lparr>fs := (fs (with_download w received))(temp_audio_path := None)\<rparr>,
                    None)))"
proof (cases failure)
  case (Some e)
  then show ?thesis
    by (simp add: save_and_transcribe_def save_stream_result [OF assms])
next
  case None
  have size: "os_path_getsize en (with_download w received) temp_audio_path
                = Inr (length received)"
    by (simp add: os_path_getsize_def)
  show ?thesis
    unfolding save_and_transcribe_def save_stream_result [OF assms] None
    by (simp add: size direct_branch [OF with_download_simps(1)])
qed

lemma save_and_transcribe_result:
  assumes run: "save_and_transcribe en w received failure = (r, w', td)"
      and tap: "fs w temp_audio_path \<noteq> Some Dir"
  shows "fs w' temp_audio_path \<noteq> Some Dir \<and>
         (case r of Inr t \<Rightarrow> fs w' temp_audio_path = None | Inl e \<Rightarrow> True) \<and>
         (case td of
            None \<Rightarrow> mkdtemp_calls (events w') = mkdtemp_calls (events w)
          | Some d \<Rightarrow>
              mkdtemp_calls (events w') = mkdtemp_calls (events w) @ [d] \<and> d \<noteq> [] \<and>
              (case r of Inr t \<Rightarrow> fs w' d = None | Inl e \<Rightarrow> fs w' d = Some Dir))"
proof -
  let ?w1 = "with_download w received"
  note unf = run [unfolded save_and_transcribe_unfold [OF tap]]
  show ?thesis
  proof (cases failure)
    case (Some e)
    then show ?thesis using unf by auto
  next
    case None
    show ?thesis
    proof (cases "received = []")
      case True
      then show ?thesis using unf None by auto
    next
      case False
      show ?thesis
      proof (cases "length received > 25 * 1024 * 1024")
        case small: False
        then show ?thesis using unf None False by (auto split: sum.splits if_splits)
      next
        case True
        show ?thesis
        proof (cases "tempfile_mkdtemp en ?w1 ''audio_chunks_''")
          case (Inl e)
          then show ?thesis using unf None False True by auto
        next
          case (Inr dw)
          obtain d w2 where dw: "dw = (d, w2)" by (cases dw) auto
          obtain r3 w3 where ch: "chunked en w2 d = (r3, w3)"
            by (cases "chunked en w2 d") auto
          have res: "r = r3" "w' = w3" "td = Some d"
            using unf None False True Inr dw ch by simp_all
          from tempfile_mkdtemp_Inr [OF Inr [unfolded dw]]
          have mk: "fs ?w1 d = None" "fs w2 = (fs ?w1)(d \<mapsto> Dir)"
            "events w2 = events ?w1 @ [Mkdtemp d]" "d \<noteq> []" by simp_all
          have dne: "d \<noteq> temp_audio_path" using mk(1) by auto
          have pre: "fs w2 d = Some Dir" "fs w2 temp_audio_path \<noteq> Some Dir"
            using mk dne by simp_all
          note cr = chunked_result [OF ch pre mk(4)]
          have A: "mkdtemp_calls (events w3) = mkdtemp_calls (events w) @ [d]"
            using cr mk(3) by simp
          have B: "case r3 of Inr t \<Rightarrow> fs w3 d = None | Inl e \<Rightarrow> fs w3 d = Some Dir"
            using cr by (cases r3) auto
          have C: "case r3 of Inr t \<Rightarrow> fs w3 temp_audio_path = None | Inl e \<Rightarrow> True"
            using cr by (cases r3) auto
          have D: "fs w3 temp_audio_path \<noteq> Some Dir" using cr by simp
          show ?thesis unfolding res using A B C D mk(4) by (cases r3) simp_all
        qed
      qed
    qed
  qed
qed

lemma request_body_result:
  assumes run: "request_body en w url = (r, w', td)"
      and tap: "fs w temp_audio_path \<noteq> Some Dir"
  shows "fs w' temp_audio_path \<noteq> Some Dir \<and>
         (case r of Inr t \<Rightarrow> fs w' temp_audio_path = None | Inl e \<Rightarrow> True) \<and>
         (case td of
            None \<Rightarrow> mkdtemp_calls (events w') = mkdtemp_calls (events w)
          | Some d \<Rightarrow>
              mkdtemp_calls (events w') = mkdtemp_calls (events w) @ [d] \<and> d \<noteq> [] \<and>
              (case r of Inr t \<Rightarrow> fs w' d = None | Inl e \<Rightarrow> fs w' d = Some Dir))"
proof -
  have early: ?thesis if "w' = w" "td = None" "\<exists>e. r = Inl e"
    using that tap by auto
  show ?thesis
  proof (cases "requests_get en url")
    case (AudioGetRaised e)
    then have "w' = w \<and> td = None \<and> (\<exists>e. r = Inl e)"
      using run by (cases e) (auto simp: request_body_def)
    then show ?thesis using early by blast
  next
    case (AudioReply code received failure)
    show ?thesis
    proof (cases "raise_for_status code")
      case (Inl e)
      then have "w' = w \<and> td = None \<and> (\<exists>e. r = Inl e)"
        using run AudioReply by (auto simp: request_body_def)
      then show ?thesis using early by blast
    next
      case (Inr u)
      then have g: "save_and_transcribe_guarded en w received failure = (r, w', td)"
        using run AudioReply by (simp add: request_body_def)
      obtain r0 where s: "save_and_transcribe en w received failure = (r0, w', td)"
        and rr: "(\<exists>t. r0 = Inr t \<and> r = Inr t) \<or> ((\<exists>e. r0 = Inl e) \<and> (\<exists>e. r = Inl e))"
        using g unfolding save_and_transcribe_guarded_def
        by (cases "save_and_transcribe en w received failure")
           (auto split: sum.splits if_splits)
      from save_and_transcribe_result [OF s tap] rr show ?thesis
        by (auto split: option.splits)
    qed
  qed
qed

text \<open>
  Claim C1, as amended. A request that passes the API-key guard, started where
  \<^verbatim>\<open>temp_audio.mp3\<close> is not a directory and run where no deletion is refused,
  leaves no \<^verbatim>\<open>temp_audio.mp3\<close> and none of the directories it created with
  \<^verbatim>\<open>mkdtemp\<close>, whether it returns a transcript or raises. A request that the
  guard rejects deletes nothing: it leaves the file system and the trace as they
  were.
\<close>

theorem cleanup_on_every_exit:
  assumes "fs w temp_audio_path \<noteq> Some Dir"
      and "\<forall>p. \<not> deletion_fails en p"
  shows "case transcribe_podcast en w audio_url of
           (r, w') \<Rightarrow>
             if api_key_configured en
             then \<not> path_exists w' temp_audio_path \<and>
                  (\<exists>ds. mkdtemp_calls (events w') = mkdtemp_calls (events w) @ ds \<and>
                        (\<forall>d\<in>set ds. \<not> path_exists w' d))
             else w' = w"
proof (cases "api_key_configured en")
  case False
  then show ?thesis by (simp add: transcribe_podcast_def)
next
  case True
  obtain r1 w1 td where rb: "request_body en w audio_url = (r1, w1, td)"
    by (cases "request_body en w audio_url") auto
  note post = request_body_result [OF rb assms(1)]
  have tap1: "fs w1 temp_audio_path \<noteq> Some Dir" using post by simp
  have calls: "\<exists>ds. mkdtemp_calls (events w1) = mkdtemp_calls (events w) @ ds \<and>
                   (td = None \<longrightarrow> ds = []) \<and> (\<forall>d. td = Some d \<longrightarrow> ds = [d] \<and> d \<noteq> [])"
    using post by (cases td) auto
  show ?thesis
  proof (cases r1)
    case (Inr t)
    then have res: "transcribe_podcast en w audio_url = (Inr t, w1)"
      using True rb by (simp add: transcribe_podcast_def)
    have "fs w1 temp_audio_path = None" using post Inr by simp
    moreover have "\<forall>d. td = Some d \<longrightarrow> fs w1 d = None"
      using post Inr by (auto split: option.splits)
    ultimately show ?thesis using res True calls by (auto simp: path_exists_def)
  next
    case (Inl e)
    then obtain e' where res: "transcribe_podcast en w audio_url = (Inl e', cleanup en w1 td)"
      using True rb by (cases e) (simp_all add: transcribe_podcast_def)
    have "td = None \<or> (\<exists>d. td = Some d \<and> (fs w1 d = Some Dir \<or> fs w1 d = None))"
      using post Inl by (cases td) auto
    from cleanup_result [OF tap1 this assms(2)] cleanup_events [of en w1 td]
    have "fs (cleanup en w1 td) temp_audio_path = None"
      "\<forall>d. td = Some d \<and> d \<noteq> [] \<longrightarrow> fs (cleanup en w1 td) d = None"
      "events (cleanup en w1 td) = events w1" by simp_all
    then show ?thesis using res True calls by (auto simp: path_exists_def)
  qed
qed

lemmas eval_request =
  transcribe_podcast_def api_key_configured_def request_body_def raise_for_status_def
  save_and_transcribe_guarded_def save_and_transcribe_def save_stream_def write_file_def
  tempfile_mkdtemp_def os_path_join_def chunked_def chunked_try_def
  transcribe_audio_chunk_def new_api_def legacy_api_def remove_if_exists_def
  rmtree_if_exists_def os_remove_def shutil_rmtree_def empty_world_def

lemma spoken_request:
  "fst (transcribe_podcast spoken_env empty_world ''http://example.com/episode.mp3'')
     = Inr ''one two three''"
  "events (snd (transcribe_podcast spoken_env empty_world ''http://example.com/episode.mp3''))
     = [Mkdtemp ''/tmp/audio_chunks_k3x9'',
        Extract 0 ''/tmp/audio_chunks_k3x9/chunk_000.mp3'',
        Extract 300 ''/tmp/audio_chunks_k3x9/chunk_001.mp3'',
        Extract 600 ''/tmp/audio_chunks_k3x9/chunk_002.mp3'',
        Extract 900 ''/tmp/audio_chunks_k3x9/chunk_003.mp3'',
        Transcribe ''/tmp/audio_chunks_k3x9/chunk_000.mp3'',
        Transcribe ''/tmp/audio_chunks_k3x9/chunk_001.mp3'',
        Transcribe ''/tmp/audio_chunks_k3x9/chunk_002.mp3'']"
  by (simp_all add: eval_request eval_split spoken_env_def demo_env_def upt_4 del: One_nat_def)

subsection \<open>Successful requests\<close>

lemma transcribe_podcast_Inr:
  assumes "transcribe_podcast en w url = (Inr t, w')"
  shows "api_key_configured en \<and>
         (\<exists>code received failure.
            requests_get en url = AudioReply code received failure \<and>
            save_and_transcribe en w received failure = (Inr t, w', snd (snd (request_body en w url))))"
proof -
  have key: "api_key_configured en"
    using assms by (auto simp: transcribe_podcast_def split: if_splits)
  obtain r1 w1 td where rb: "request_body en w url = (r1, w1, td)"
    by (cases "request_body en w url") auto
  have r1: "r1 = Inr t" "w1 = w'"
    using assms key rb
    by (auto simp: transcribe_podcast_def split: sum.splits py_exn.splits)
  have "\<exists>code received failure.
            requests_get en url = AudioReply code received failure \<and>
            save_and_transcribe en w received failure = (Inr t, w', td)"
    using rb r1
    unfolding request_body_def save_and_transcribe_guarded_def
    by (auto split: audio_reply.splits py_exn.splits sum.splits prod.splits if_splits)
  then show ?thesis using key rb by simp
qed

lemma save_and_transcribe_Inr_tap:
  "save_and_transcribe en w received failure = (Inr t, w', td) \<Longrightarrow>
   fs w temp_audio_path \<noteq> Some Dir"
  by (auto simp: save_and_transcribe_def save_stream_def write_file_def
           split: sum.splits prod.splits option.splits node.splits)

text \<open>
  Claim C3. A request whose download exceeds the threshold and that returns a
  transcript has created a workspace, split the stored file into a non-empty
  list of chunks in increasing chunk index, called the transcriber once per
  chunk in the order of the list and on nothing else, and returns \<open>segment 0 @ '' '' @ segment 1 @ \<dots>\<close>, where
  segment \<open>i\<close> is the text the transcriber gives for chunk \<open>i\<close>.
\<close>

theorem chunked_transcript_in_chunk_order:
  assumes "requests_get en url = AudioReply code received failure"
      and "25 * 1024 * 1024 < length received"
      and "transcribe_podcast en w url = (Inr transcript, w')"
  shows "\<exists>temp_dir w2 chunks w3 segs.
           tempfile_mkdtemp en (with_download w received) ''audio_chunks_'' = Inr (temp_dir, w2) \<and>
           split_audio_file en w2 temp_audio_path temp_dir 300 20 = (Inr chunks, w3) \<and>
           chunks \<noteq> [] \<and>
           (\<exists>ixs. chunks = map (chunk_path temp_dir) ixs \<and> sorted_wrt (<) ixs) \<and>
           list_all2 (\<lambda>c s. fst (transcribe_audio_chunk en w3 c) = Inr s) chunks segs \<and>
           transcribe_calls (events w') = transcribe_calls (events w) @ chunks \<and>
           transcript = hd segs @ concat (map (\<lambda>s. '' '' @ s) (tl segs))"
proof -
  from transcribe_podcast_Inr [OF assms(3)] assms(1) obtain td where
    sat: "save_and_transcribe en w received failure = (Inr transcript, w', td)"
    by auto
  note tap = save_and_transcribe_Inr_tap [OF sat]
  let ?w1 = "with_download w received"
  note unf = sat [unfolded save_and_transcribe_unfold [OF tap]]
  have fl: "failure = None" using unf by (cases failure) auto
  have ne: "received \<noteq> []" using assms(2) by auto
  obtain d w2 where mk: "tempfile_mkdtemp en ?w1 ''audio_chunks_'' = Inr (d, w2)"
    using unf fl ne assms(2) by (cases "tempfile_mkdtemp en ?w1 ''audio_chunks_''") auto
  have ch: "chunked en w2 d = (Inr transcript, w')"
    using unf fl ne assms(2) mk by (cases "chunked en w2 d") auto
  from tempfile_mkdtemp_Inr [OF mk]
  have m: "fs ?w1 d = None" "fs w2 = (fs ?w1)(d \<mapsto> Dir)"
    "events w2 = events ?w1 @ [Mkdtemp d]" "d \<noteq> []" by simp_all
  have dne: "d \<noteq> temp_audio_path" using m(1) by auto
  have pre: "fs w2 d = Some Dir" "fs w2 temp_audio_path \<noteq> Some Dir"
    using m dne by simp_all
  from chunked_result [OF ch pre m(4)] obtain chunks w3 segs where
    sp: "split_audio_file en w2 temp_audio_path d 300 20 = (Inr chunks, w3)"
    and nonempty: "chunks \<noteq> []"
    and segs: "list_all2 (\<lambda>c s. fst (transcribe_audio_chunk en w3 c) = Inr s) chunks segs"
    and tr: "transcript = join_str '' '' segs"
    and calls: "transcribe_calls (events w') = transcribe_calls (events w2) @ chunks"
    by auto
  have "segs \<noteq> []" using segs nonempty by (auto simp: list_all2_Nil2)
  then have "transcript = hd segs @ concat (map (\<lambda>s. '' '' @ s) (tl segs))"
    using tr by (simp add: join_str_explicit)
  moreover have "transcribe_calls (events w') = transcribe_calls (events w) @ chunks"
    using calls m(3) by simp
  moreover have "\<exists>ixs. chunks = map (chunk_path d) ixs \<and> sorted_wrt (<) ixs"
    using split_result_ordered [OF sp] chunk_path_neq_temp_audio by blast
  ultimately show ?thesis using mk sp nonempty segs by blast
qed

theorem chunked_transcript_in_chunk_order_witness:
  "fst (transcribe_podcast spoken_env empty_world ''http://example.com/episode.mp3'')
     = Inr (''one'' @ '' '' @ ''two'' @ '' '' @ ''three'')
   \<and> transcribe_calls
         (events (snd (transcribe_podcast spoken_env empty_world ''http://example.com/episode.mp3'')))
     = [''/tmp/audio_chunks_k3x9/chunk_000.mp3'', ''/tmp/audio_chunks_k3x9/chunk_001.mp3'',
        ''/tmp/audio_chunks_k3x9/chunk_002.mp3'']"
proof -
  have get: "requests_get spoken_env ''http://example.com/episode.mp3''
               = AudioReply 200 (replicate 31457280 0) None"
    by (simp add: spoken_env_def demo_env_def)
  have big: "25 * 1024 * 1024 < length (replicate 31457280 (0::8 word))" by simp
  have run: "transcribe_podcast spoken_env empty_world ''http://example.com/episode.mp3''
               = (Inr ''one two three'',
                  snd (transcribe_podcast spoken_env empty_world ''http://example.com/episode.mp3''))"
    using spoken_request(1) by (simp add: prod_eq_iff)
  from chunked_transcript_in_chunk_order [OF get big run] show ?thesis
    by (simp add: spoken_request)
qed

theorem cleanup_on_every_exit_witness:
  "\<not> path_exists (snd (transcribe_podcast spoken_env empty_world ''http://example.com/episode.mp3''))
        temp_audio_path
   \<and> \<not> path_exists (snd (transcribe_podcast spoken_env empty_world ''http://example.com/episode.mp3''))
        ''/tmp/audio_chunks_k3x9''"
proof -
  have tap: "fs empty_world temp_audio_path \<noteq> Some Dir" by (simp add: empty_world_def)
  have key: "api_key_configured spoken_env"
    by (simp add: api_key_configured_def spoken_env_def demo_env_def)
  have ev0: "events empty_world = []" by (simp add: empty_world_def)
  have del: "\<forall>p. \<not> deletion_fails spoken_env p" by (simp add: spoken_env_def demo_env_def)
  from cleanup_on_every_exit [OF tap del, of "''http://example.com/episode.mp3''"]
  show ?thesis
    by (simp add: case_prod_beta key spoken_request(2) ev0)
qed

text \<open>
  Outside these conditions the paths stay. Where \<^verbatim>\<open>temp_audio.mp3\<close> is a
  directory the download cannot be saved, the \<^verbatim>\<open>os.remove\<close> of the handler
  raises, the exception is swallowed and the directory is still there. Where the
  file system refuses deletions, the \<^verbatim>\<open>os.remove\<close> of line 445 raises once all
  chunks are transcribed, the deletions of the handler are swallowed, and both
  the downloaded file and the workspace are still there. A request rejected by
  the guard of line 382 leaves a file stored under \<^verbatim>\<open>temp_audio.mp3\<close> where it
  is.
\<close>

lemma blocked_request:
  "fst (transcribe_podcast spoken_env blocked_world ''http://example.com/episode.mp3'')
     = Inl (HTTPException 500 ''Error saving audio file: Is a directory'')"
  "fs (snd (transcribe_podcast spoken_env blocked_world ''http://example.com/episode.mp3''))
     temp_audio_path = Some Dir"
  by (simp_all add: eval_request cleanup_def blocked_world_def spoken_env_def demo_env_def
        path_exists_def)

lemma locked_request:
  "fst (transcribe_podcast locked_env empty_world ''http://example.com/episode.mp3'')
     = Inl (HTTPException 500
              ''Error processing request: Error processing audio chunks: Permission denied'')"
  "fs (snd (transcribe_podcast locked_env empty_world ''http://example.com/episode.mp3''))
     temp_audio_path = Some (File (replicate 31457280 0))"
  "fs (snd (transcribe_podcast locked_env empty_world ''http://example.com/episode.mp3''))
     ''/tmp/audio_chunks_k3x9'' = Some Dir"
  "mkdtemp_calls
     (events (snd (transcribe_podcast locked_env empty_world ''http://example.com/episode.mp3'')))
     = [''/tmp/audio_chunks_k3x9'']"
  by (simp_all add: eval_request eval_split cleanup_def classify_error_def lower_char_def
        locked_env_def spoken_env_def demo_env_def upt_4 del: One_nat_def)

lemma keyless_request:
  "fst (transcribe_podcast keyless_env (with_download empty_world [7, 7, 7])
          ''http://example.com/episode.mp3'')
     = Inl (HTTPException 500 ''OpenAI API key not configured'')"
  "fs (snd (transcribe_podcast keyless_env (with_download empty_world [7, 7, 7])
          ''http://example.com/episode.mp3'')) temp_audio_path = Some (File [7, 7, 7])"
  by (simp_all add: transcribe_podcast_def api_key_configured_def keyless_env_def demo_env_def)

theorem cleanup_leaves_paths_behind:
  "api_key_configured spoken_env
   \<and> (\<exists>detail. fst (transcribe_podcast spoken_env blocked_world
                      ''http://example.com/episode.mp3'') = Inl (HTTPException 500 detail))
   \<and> path_exists (snd (transcribe_podcast spoken_env blocked_world
                         ''http://example.com/episode.mp3'')) temp_audio_path
   \<and> api_key_configured locked_env
   \<and> fs empty_world temp_audio_path = None
   \<and> (\<exists>detail. fst (transcribe_podcast locked_env empty_world
                      ''http://example.com/episode.mp3'') = Inl (HTTPException 500 detail))
   \<and> path_exists (snd (transcribe_podcast locked_env empty_world
                         ''http://example.com/episode.mp3'')) temp_audio_path
   \<and> mkdtemp_calls (events (snd (transcribe_podcast locked_env empty_world
                                   ''http://example.com/episode.mp3'')))
       = [''/tmp/audio_chunks_k3x9'']
   \<and> path_exists (snd (transcribe_podcast locked_env empty_world
                         ''http://example.com/episode.mp3'')) ''/tmp/audio_chunks_k3x9''
   \<and> \<not> api_key_configured keyless_env
   \<and> (\<exists>detail. fst (transcribe_podcast keyless_env (with_download empty_world [7, 7, 7])
                      ''http://example.com/episode.mp3'') = Inl (HTTPException 500 detail))
   \<and> path_exists (snd (transcribe_podcast keyless_env (with_download empty_world [7, 7, 7])
                         ''http://example.com/episode.mp3'')) temp_audio_path"
proof -
  have keys: "api_key_configured spoken_env" "api_key_configured locked_env"
    "\<not> api_key_configured keyless_env"
    by (simp_all add: api_key_configured_def locked_env_def spoken_env_def keyless_env_def
          demo_env_def)
  have start: "fs empty_world temp_audio_path = None" by (simp add: empty_world_def)
  show ?thesis
    unfolding path_exists_def blocked_request locked_request keyless_request
    using keys start by simp
qed

subsection \<open>The size test and the empty download\<close>

text \<open>
  Claim C5, as amended. For a request that passes the API-key guard and whose
  download completes with a non-empty body: when the size is strictly over
  \<open>25 * 1024 * 1024\<close> bytes the stored file itself is never handed to the
  transcriber, and if the request returns a transcript the transcriber was called
  exactly on the chunks the split returned, in order; when the size is at most
  \<open>25 * 1024 * 1024\<close> bytes (the threshold itself included) the transcriber is
  called exactly once, on the stored file, and no workspace is created.
\<close>

theorem size_test_selects_branch:
  assumes key: "api_key_configured en"
      and get: "requests_get en url = AudioReply code received None"
      and ok: "\<not> (400 \<le> code \<and> code < 600)"
      and tap: "fs w temp_audio_path \<noteq> Some Dir"
      and ne: "received \<noteq> []"
  shows "case transcribe_podcast en w url of
           (r, w') \<Rightarrow>
             if 25 * 1024 * 1024 < length received then
               (\<exists>ps. transcribe_calls (events w') = transcribe_calls (events w) @ ps \<and>
                     temp_audio_path \<notin> set ps) \<and>
               (\<forall>t. r = Inr t \<longrightarrow>
                  (\<exists>temp_dir w2 chunks w3.
                      tempfile_mkdtemp en (with_download w received) ''audio_chunks_''
                        = Inr (temp_dir, w2) \<and>
                      split_audio_file en w2 temp_audio_path temp_dir 300 20 = (Inr chunks, w3) \<and>
                      transcribe_calls (events w') = transcribe_calls (events w) @ chunks))
             else
               transcribe_calls (events w') = transcribe_calls (events w) @ [temp_audio_path] \<and>
               mkdtemp_calls (events w') = mkdtemp_calls (events w)"
proof -
  let ?w1 = "with_download w received"
  obtain r0 w0 td where sat: "save_and_transcribe en w received None = (r0, w0, td)"
    by (cases "save_and_transcribe en w received None") auto
  note post = save_and_transcribe_result [OF sat tap]
  have tap0: "fs w0 temp_audio_path \<noteq> Some Dir" using post by simp
  note cl = cleanup_events [of en w0 td]
  have rb: "request_body en w url =
              (case r0 of
                 Inl e \<Rightarrow>
                   if is_IOError e
                   then (Inl (HTTPException 500 (''Error saving audio file: '' @ str_exn e)), w0, td)
                   else (Inl e, w0, td)
               | Inr t \<Rightarrow> (Inr t, w0, td))"
    using get ok sat
    by (auto simp: request_body_def raise_for_status_def save_and_transcribe_guarded_def
             split: sum.splits)
  obtain r w' where tp: "transcribe_podcast en w url = (r, w')"
    by (cases "transcribe_podcast en w url") auto
  have shape: "(\<exists>t. r0 = Inr t \<and> r = Inr t \<and> w' = w0) \<or>
               ((\<exists>e. r0 = Inl e) \<and> (\<exists>e. r = Inl e) \<and> w' = cleanup en w0 td)"
    using tp key rb
    by (cases r0) (auto simp: transcribe_podcast_def split: py_exn.splits if_splits)
  then have ev: "events w' = events w0" using cl by auto
  note unf = sat [unfolded save_and_transcribe_unfold [OF tap]]
  show ?thesis
  proof (cases "25 * 1024 * 1024 < length received")
    case False
    then have "events w0 = events w @ [Transcribe temp_audio_path]"
      using unf ne by (auto split: sum.splits if_splits)
    then show ?thesis using tp ev False by simp
  next
    case True
    show ?thesis
    proof (cases "tempfile_mkdtemp en ?w1 ''audio_chunks_''")
      case (Inl e)
      then have "events w0 = events w" "\<exists>e. r0 = Inl e"
        using unf ne True by auto
      then have "transcribe_calls (events w') = transcribe_calls (events w) @ []"
        "\<forall>t. r \<noteq> Inr t"
        using ev shape by auto
      then show ?thesis using tp True by (auto simp del: append_Nil2)
    next
      case (Inr dw)
      obtain d w2 where dw: "dw = (d, w2)" by (cases dw) auto
      have mk: "tempfile_mkdtemp en ?w1 ''audio_chunks_'' = Inr (d, w2)" using Inr dw by simp
      have ch: "chunked en w2 d = (r0, w0)"
        using unf ne True mk by (cases "chunked en w2 d") auto
      from tempfile_mkdtemp_Inr [OF mk]
      have m: "fs ?w1 d = None" "fs w2 = (fs ?w1)(d \<mapsto> Dir)"
        "events w2 = events ?w1 @ [Mkdtemp d]" "d \<noteq> []" by simp_all
      have dne: "d \<noteq> temp_audio_path" using m(1) by auto
      have pre: "fs w2 d = Some Dir" "fs w2 temp_audio_path \<noteq> Some Dir"
        using m dne by simp_all
      note cr = chunked_result [OF ch pre m(4)]
      have tc2: "transcribe_calls (events w2) = transcribe_calls (events w)"
        using m(3) by simp
      have A: "\<exists>ps. transcribe_calls (events w') = transcribe_calls (events w) @ ps \<and>
                     temp_audio_path \<notin> set ps"
        using cr ev tc2 by simp
      have B: "\<exists>temp_dir w2 chunks w3.
                      tempfile_mkdtemp en ?w1 ''audio_chunks_'' = Inr (temp_dir, w2) \<and>
                      split_audio_file en w2 temp_audio_path temp_dir 300 20 = (Inr chunks, w3) \<and>
                      transcribe_calls (events w') = transcribe_calls (events w) @ chunks"
        if "r = Inr t" for t
      proof -
        have "r0 = Inr t" using that shape by auto
        then obtain chunks w3 where
          "split_audio_file en w2 temp_audio_path d 300 20 = (Inr chunks, w3)"
          "transcribe_calls (events w0) = transcribe_calls (events w2) @ chunks"
          using cr by auto
        then show ?thesis using mk ev tc2 by auto
      qed
      have B': "\<forall>t. r = Inr t \<longrightarrow>
                  (\<exists>temp_dir w2 chunks w3.
                      tempfile_mkdtemp en ?w1 ''audio_chunks_'' = Inr (temp_dir, w2) \<and>
                      split_audio_file en w2 temp_audio_path temp_dir 300 20 = (Inr chunks, w3) \<and>
                      transcribe_calls (events w') = transcribe_calls (events w) @ chunks)"
        using B by blast
      show ?thesis unfolding tp using True A B' by (simp only: prod.case if_True)
    qed
  qed
qed

theorem size_test_selects_branch_witness:
  "transcribe_calls
     (events (snd (transcribe_podcast spoken_env empty_world ''http://example.com/episode.mp3'')))
   = [''/tmp/audio_chunks_k3x9/chunk_000.mp3'', ''/tmp/audio_chunks_k3x9/chunk_001.mp3'',
      ''/tmp/audio_chunks_k3x9/chunk_002.mp3'']
   \<and> temp_audio_path \<notin> set (transcribe_calls
         (events (snd (transcribe_podcast spoken_env empty_world
                         ''http://example.com/episode.mp3''))))"
proof -
  have key: "api_key_configured spoken_env"
    by (simp add: api_key_configured_def spoken_env_def demo_env_def)
  have get: "requests_get spoken_env ''http://example.com/episode.mp3''
               = AudioReply 200 (replicate 31457280 0) None"
    by (simp add: spoken_env_def demo_env_def)
  have ok: "\<not> (400 \<le> (200::nat) \<and> (200::nat) < 600)" by simp
  have tap: "fs empty_world temp_audio_path \<noteq> Some Dir" by (simp add: empty_world_def)
  have ne: "replicate 31457280 (0::8 word) \<noteq> []" by simp
  from size_test_selects_branch [OF key get ok tap ne] show ?thesis
    by (simp add: spoken_request(2) temp_audio_path_def)
qed

theorem threshold_file_is_transcribed_directly:
  "length (replicate 26214400 (0::8 word)) = 25 * 1024 * 1024
   \<and> requests_get threshold_env ''http://example.com/episode.mp3''
       = AudioReply 200 (replicate 26214400 0) None
   \<and> fst (transcribe_podcast threshold_env empty_world ''http://example.com/episode.mp3'')
       = Inr ''hello''
   \<and> events (snd (transcribe_podcast threshold_env empty_world ''http://example.com/episode.mp3''))
       = [Transcribe ''temp_audio.mp3'']"
  by (simp add: eval_request threshold_env_def demo_env_def os_path_getsize_def path_exists_def
        log_event_def temp_audio_path_def)

text \<open>
  Claim C6, as amended. A request whose download completes with no bytes fails
  with status 500, never with a 400-class status: with the API key configured and
  \<^verbatim>\<open>temp_audio.mp3\<close> not a directory the error is
  \<^verbatim>\<open>HTTPException(500, "Downloaded audio file is empty")\<close>. It is not classed with
  the failures to reach the URL, which are the ones that give status 400.
\<close>

theorem empty_download_is_500:
  "(requests_get en url = AudioReply code [] None \<and> \<not> (400 \<le> code \<and> code < 600)
      \<longrightarrow> (\<exists>detail. fst (transcribe_podcast en w url) = Inl (HTTPException 500 detail))
          \<and> (api_key_configured en \<and> fs w temp_audio_path \<noteq> Some Dir
               \<longrightarrow> fst (transcribe_podcast en w url)
                     = Inl (HTTPException 500 ''Downloaded audio file is empty'')))
   \<and> (api_key_configured en \<and> requests_get en url = AudioGetRaised (RequestException m)
      \<longrightarrow> fst (transcribe_podcast en w url)
            = Inl (HTTPException 400 (''Error accessing audio URL: '' @ m)))
   \<and> (api_key_configured en \<and> requests_get en url = AudioReply code received failure
        \<and> 400 \<le> code \<and> code < 600
      \<longrightarrow> (\<exists>detail. fst (transcribe_podcast en w url) = Inl (HTTPException 400 detail)))"
proof -
  have empty_ok: "fst (transcribe_podcast en w url)
                     = Inl (HTTPException 500 ''Downloaded audio file is empty'')"
    if "requests_get en url = AudioReply code [] None" "\<not> (400 \<le> code \<and> code < 600)"
       "api_key_configured en" "fs w temp_audio_path \<noteq> Some Dir"
    using that
    by (simp add: transcribe_podcast_def request_body_def raise_for_status_def
          save_and_transcribe_guarded_def save_and_transcribe_unfold)
  have empty_dir: "fst (transcribe_podcast en w url)
                     = Inl (HTTPException 500 ''Error saving audio file: Is a directory'')"
    if "requests_get en url = AudioReply code [] None" "\<not> (400 \<le> code \<and> code < 600)"
       "api_key_configured en" "fs w temp_audio_path = Some Dir"
    using that
    by (simp add: transcribe_podcast_def request_body_def raise_for_status_def
          save_and_transcribe_guarded_def save_and_transcribe_def save_stream_def write_file_def)
  have nokey: "fst (transcribe_podcast en w url)
                 = Inl (HTTPException 500 ''OpenAI API key not configured'')"
    if "\<not> api_key_configured en"
    using that by (simp add: transcribe_podcast_def)
  have some500: "\<exists>detail. fst (transcribe_podcast en w url) = Inl (HTTPException 500 detail)"
    if "requests_get en url = AudioReply code [] None" "\<not> (400 \<le> code \<and> code < 600)"
    using that empty_ok empty_dir nokey by (metis (full_types))
  have unreachable: "fst (transcribe_podcast en w url)
            = Inl (HTTPException 400 (''Error accessing audio URL: '' @ m))"
    if "api_key_configured en" "requests_get en url = AudioGetRaised (RequestException m)"
    using that by (simp add: transcribe_podcast_def request_body_def)
  have status: "\<exists>detail. fst (transcribe_podcast en w url) = Inl (HTTPException 400 detail)"
    if "api_key_configured en" "requests_get en url = AudioReply code received failure"
       "400 \<le> code" "code < 600"
    using that by (simp add: transcribe_podcast_def request_body_def raise_for_status_def)
  show ?thesis using empty_ok some500 unreachable status by blast
qed

theorem empty_download_is_500_witness:
  "fst (transcribe_podcast empty_download_env empty_world ''http://example.com/episode.mp3'')
     = Inl (HTTPException 500 ''Downloaded audio file is empty'')"
proof -
  have get: "requests_get empty_download_env ''http://example.com/episode.mp3''
               = AudioReply 200 [] None"
    by (simp add: empty_download_env_def)
  have key: "api_key_configured empty_download_env"
    by (simp add: api_key_configured_def empty_download_env_def demo_env_def)
  have tap: "fs empty_world temp_audio_path \<noteq> Some Dir" by (simp add: empty_world_def)
  from empty_download_is_500 [of empty_download_env "''http://example.com/episode.mp3''" 200 empty_world]
  show ?thesis using get key tap by simp
qed

theorem empty_download_not_400:
  "requests_get empty_download_env ''http://example.com/episode.mp3'' = AudioReply 200 [] None
   \<and> \<not> (\<exists>c detail.
          fst (transcribe_podcast empty_download_env empty_world ''http://example.com/episode.mp3'')
            = Inl (HTTPException c detail) \<and> 400 \<le> c \<and> c < 500)"
  by (simp add: eval_request empty_download_env_def demo_env_def os_path_getsize_def
        temp_audio_path_def)

subsection \<open>The name of the downloaded file\<close>

text \<open>
  Claim C8 does not hold of the code: every request stores its download under
  the one name \<^verbatim>\<open>temp_audio.mp3\<close>. Here a request runs while the download of
  another one, the bytes \<open>[7, 7, 7]\<close>, is waiting there to be transcribed: it
  succeeds, and the other request's file is gone.
\<close>

theorem shared_temp_audio_file:
  "fs (with_download empty_world [7, 7, 7]) ''temp_audio.mp3'' = Some (File [7, 7, 7])
   \<and> fst (transcribe_podcast small_env (with_download empty_world [7, 7, 7])
            ''http://example.com/other.mp3'') = Inr ''hello''
   \<and> fs (snd (transcribe_podcast small_env (with_download empty_world [7, 7, 7])
                ''http://example.com/other.mp3'')) ''temp_audio.mp3'' = None"
  by (simp add: eval_request small_env_def demo_env_def with_download_def os_path_getsize_def
        path_exists_def log_event_def temp_audio_path_def)

end
